theory Spec2Isabelle
  imports Main "HOL-Library.Word" "HOL-Library.Multiset"
begin

unbundle bit_operations_syntax

section \<open>The index decoder of bambi (src/decode.c)\<close>

text \<open>
  A shallow embedding of the matching core of \<^verbatim>\<open>decode.c\<close>. C strings are
  \<^typ>\<open>string\<close> (the characters before the terminating NUL), pointers into the
  barcode array are indices, pointers into the tag-hop hash are its keys, and the
  64-bit counters are \<^typ>\<open>64 word\<close>. A string whose bytes behind the terminator are
  read is a \<open>buffer\<close>: the characters and the bytes that the allocation holds behind
  the terminator. Where C gives a call no defined result (a pointer that was never
  assigned, a read or write outside the allocation) the model returns a \<open>fault\<close>.
\<close>

subsection \<open>Options and barcode details\<close>

text \<open>
  \<^verbatim>\<open>opts_t\<close>, without the file names and formats. \<^verbatim>\<open>idx1_len\<close> and
  \<^verbatim>\<open>idx2_len\<close> are C ints that \<^verbatim>\<open>loadBarcodeFile\<close> sets from \<^verbatim>\<open>strlen\<close>, so
  they are never negative; \<^verbatim>\<open>dual_tag\<close> is an unsigned short.
\<close>

record opts_t =
  barcode_tag_name :: string
  quality_tag_name :: string
  max_low_quality_to_convert :: int
  convert_low_quality :: bool
  max_no_calls :: int
  max_mismatches :: int
  min_mismatch_delta :: int
  change_read_name :: bool
  idx1_len :: nat
  idx2_len :: nat
  dual_tag :: nat

record bc_details_t =
  seq :: string
  idx1 :: string
  idx2 :: string
  name :: string
  lib :: string
  sample :: string
  desc :: "string option"
  reads :: "64 word"
  pf_reads :: "64 word"
  perfect :: "64 word"
  pf_perfect :: "64 word"
  one_mismatch :: "64 word"
  pf_one_mismatch :: "64 word"

text \<open>An entry as \<^verbatim>\<open>calloc\<close> leaves its counters.\<close>

definition new_bcd ::
  "string \<Rightarrow> string \<Rightarrow> string \<Rightarrow> string \<Rightarrow> string \<Rightarrow> string \<Rightarrow> string option \<Rightarrow> bc_details_t" where
  "new_bcd s i1 i2 n l sm d =
     \<lparr>seq = s, idx1 = i1, idx2 = i2, name = n, lib = l, sample = sm, desc = d,
      reads = 0, pf_reads = 0, perfect = 0, pf_perfect = 0, one_mismatch = 0, pf_one_mismatch = 0\<rparr>"

datatype fault = Unassigned_Pointer | Out_Of_Bounds | Null_Pointer

definition DEFAULT_MAX_LOW_QUALITY_TO_CONVERT :: int where
  "DEFAULT_MAX_LOW_QUALITY_TO_CONVERT = 15"

definition DEFAULT_MAX_NO_CALLS :: int where
  "DEFAULT_MAX_NO_CALLS = 2"

definition DEFAULT_MAX_MISMATCHES :: int where
  "DEFAULT_MAX_MISMATCHES = 1"

definition DEFAULT_MIN_MISMATCH_DELTA :: int where
  "DEFAULT_MIN_MISMATCH_DELTA = 1"

text \<open>
  Modelled from the spec: \<^verbatim>\<open>INDEX_SEPARATOR\<close> is a macro of \<^verbatim>\<open>bambi.h\<close>, which is
  not among the sources; the specification gives \<^verbatim>\<open>SEP = "-"\<close>.
\<close>

definition INDEX_SEPARATOR :: string where
  "INDEX_SEPARATOR = ''-''"

subsection \<open>Characters\<close>

text \<open>
  The value of a C \<^verbatim>\<open>char\<close> promoted to \<^verbatim>\<open>int\<close>, with \<^verbatim>\<open>char\<close> signed as on
  the x86 targets. Quality characters are printable ASCII, below 128, where the signed
  and the unsigned reading agree.
\<close>

definition char_int :: "char \<Rightarrow> int" where
  "char_int c = (if (of_char c :: nat) < 128 then int (of_char c) else int (of_char c) - 256)"

text \<open>\<^verbatim>\<open>isalpha\<close> of the C locale: the ASCII letters.\<close>

definition isalpha :: "char \<Rightarrow> bool" where
  "isalpha c = ((65 \<le> (of_char c :: nat) \<and> (of_char c :: nat) \<le> 90) \<or>
                (97 \<le> (of_char c :: nat) \<and> (of_char c :: nat) \<le> 122))"

subsection \<open>checkBarcodeQuality\<close>

text \<open>
  The loop of \<^verbatim>\<open>checkBarcodeQuality\<close> over the positions of \<^verbatim>\<open>qt_tag\<close>; it runs
  only when both strings have the same length.
\<close>

fun convert_low_quality_bases :: "string \<Rightarrow> string \<Rightarrow> int \<Rightarrow> string" where
  "convert_low_quality_bases newBarcode [] mlq = newBarcode"
| "convert_low_quality_bases [] (q # qt) mlq = []"
| "convert_low_quality_bases (b # newBarcode) (q # qt) mlq =
     (if isalpha b \<and> char_int q - 33 \<le> mlq then CHR ''N'' else b)
       # convert_low_quality_bases newBarcode qt mlq"

text \<open>
  \<^verbatim>\<open>qt_tag\<close> may be NULL (\<open>None\<close>); the result is NULL (\<open>None\<close>) when the
  lengths differ.
\<close>

definition checkBarcodeQuality :: "string \<Rightarrow> string option \<Rightarrow> opts_t \<Rightarrow> string option" where
  "checkBarcodeQuality bc_tag qt_tag opts =
     (case qt_tag of
        None \<Rightarrow> Some bc_tag
      | Some qt \<Rightarrow>
          if length bc_tag \<noteq> length qt then None
          else Some (convert_low_quality_bases bc_tag qt
                 (if max_low_quality_to_convert opts \<noteq> 0 then max_low_quality_to_convert opts
                  else DEFAULT_MAX_LOW_QUALITY_TO_CONVERT)))"

subsection \<open>split_index\<close>

text \<open>
  \<^verbatim>\<open>strtok_r\<close> of the C library: skip leading delimiters; when nothing is left
  there is no token; otherwise the token runs to the next delimiter, and the scan resumes
  behind that delimiter.
\<close>

definition strtok_r :: "string \<Rightarrow> string \<Rightarrow> string option \<times> string" where
  "strtok_r s delim =
     (let s' = dropWhile (\<lambda>c. c \<in> set delim) s in
      if s' = [] then (None, [])
      else (Some (takeWhile (\<lambda>c. c \<notin> set delim) s'),
            drop 1 (dropWhile (\<lambda>c. c \<notin> set delim) s')))"

text \<open>
  With \<^verbatim>\<open>dual_tag\<close> set, \<^verbatim>\<open>idx2\<close> is copied from offset \<^verbatim>\<open>dual_tag\<close> and the
  character at offset \<^verbatim>\<open>dual_tag - 1\<close> is overwritten with the terminator before
  \<^verbatim>\<open>idx1\<close> is copied. An offset behind the terminator reads outside the string.
  Without \<^verbatim>\<open>dual_tag\<close>, a sequence with no token leaves \<^verbatim>\<open>*idx1_ptr\<close> unassigned.
\<close>

definition split_index :: "string \<Rightarrow> nat \<Rightarrow> fault + (string \<times> string)" where
  "split_index sq dt =
     (if dt \<noteq> 0 then
        (if dt \<le> length sq then Inr (take (dt - 1) sq, drop dt sq) else Inl Out_Of_Bounds)
      else
        (case strtok_r sq INDEX_SEPARATOR of
           (None, rest) \<Rightarrow> Inl Unassigned_Pointer
         | (Some p1, rest) \<Rightarrow>
             (case strtok_r rest INDEX_SEPARATOR of
                (None, rest') \<Rightarrow> Inr (p1, [])
              | (Some p2, rest') \<Rightarrow> Inr (p1, p2))))"

subsection \<open>No-calls and mismatches\<close>

definition isNoCall :: "char \<Rightarrow> bool" where
  "isNoCall b = (b = CHR ''N'' \<or> b = CHR ''n'' \<or> b = CHR ''.'')"

text \<open>The loop of \<^verbatim>\<open>noCalls\<close>, with its counter \<^verbatim>\<open>n\<close>.\<close>

fun noCalls_from :: "string \<Rightarrow> int \<Rightarrow> int" where
  "noCalls_from [] n = n"
| "noCalls_from (c # s) n = noCalls_from s (if isNoCall c then n + 1 else n)"

definition noCalls :: "string \<Rightarrow> int" where
  "noCalls s = noCalls_from s 0"

definition NUL :: char where
  "NUL = CHR 0x00"

text \<open>
  An allocation that holds a C string: the characters before the terminator, and the
  bytes of the allocation behind the terminator. \<^verbatim>\<open>strdup\<close> allocates the characters
  and the terminator and nothing more. \<open>bytes\<close> is the whole allocation in order.
\<close>

record buffer =
  chars :: string
  slack :: string

definition bytes :: "buffer \<Rightarrow> string" where
  "bytes b = chars b @ NUL # slack b"

definition strdup :: "string \<Rightarrow> buffer" where
  "strdup s = \<lparr>chars = s, slack = []\<rparr>"

text \<open>
  \<^verbatim>\<open>strcpy\<close> and \<^verbatim>\<open>strcat\<close> into the start of an allocation write the new string and
  its terminator; the bytes behind that terminator stay as they were. A string that does
  not fit writes outside the allocation.
\<close>

definition overwrite :: "buffer \<Rightarrow> string \<Rightarrow> fault + buffer" where
  "overwrite b s =
     (if length s + 1 > length (bytes b) then Inl Out_Of_Bounds
      else Inr \<lparr>chars = s, slack = drop (length s + 1) (bytes b)\<rparr>)"

text \<open>
  The loop of \<^verbatim>\<open>countMismatches\<close> runs over the characters of \<^verbatim>\<open>tag\<close> and reads
  the byte of \<^verbatim>\<open>barcode\<close> at the same position: the characters of the barcode, then
  its terminator, then the bytes that the allocation holds behind it. The second
  argument of the loop is the rest of the allocation; a read behind its end is out of
  bounds.
\<close>

fun countMismatches_from :: "string \<Rightarrow> string \<Rightarrow> int \<Rightarrow> int \<Rightarrow> fault + int" where
  "countMismatches_from [] barcode maxval n = Inr n"
| "countMismatches_from (t # tag) [] maxval n = Inl Out_Of_Bounds"
| "countMismatches_from (t # tag) (b # barcode) maxval n =
     (if t \<noteq> b \<and> b \<noteq> CHR ''N'' then
        (if n + 1 > maxval then Inr (n + 1)
         else countMismatches_from tag barcode maxval (n + 1))
      else countMismatches_from tag barcode maxval n)"

definition countMismatches :: "string \<Rightarrow> buffer \<Rightarrow> int \<Rightarrow> fault + int" where
  "countMismatches tag barcode maxval = countMismatches_from tag (bytes barcode) maxval 0"

subsection \<open>The hash tables\<close>

text \<open>
  Modelled from the spec: \<^verbatim>\<open>hash_table.h\<close> and its implementation are not among the
  sources. The specification describes \<open>H\<close> and \<open>M\<close> as mappings from a key string to
  an entry, with exact lookup and insertion. A table is a map from keys to items. The
  specification does not say what an insertion does to a key that is present: here
  \<^verbatim>\<open>HashTableAdd\<close> keeps the item that is there, and the theorems of the claims hold
  for either choice.
\<close>

type_synonym 'a HashTable = "string \<Rightarrow> 'a option"

definition HashTableSearch :: "'a HashTable \<Rightarrow> string \<Rightarrow> 'a option" where
  "HashTableSearch h key = h key"

definition HashTableAdd :: "'a HashTable \<Rightarrow> string \<Rightarrow> 'a \<Rightarrow> 'a HashTable" where
  "HashTableAdd h key d = (case h key of None \<Rightarrow> h(key \<mapsto> d) | Some d' \<Rightarrow> h)"

text \<open>
  \<^verbatim>\<open>decode\<close> fills \<^verbatim>\<open>barcodeHash\<close> from the barcode array, entry 0 included; the
  item stored under \<^verbatim>\<open>bcd->seq\<close> is the pointer to the entry, here its index.
\<close>

fun barcodeHash_from :: "bc_details_t list \<Rightarrow> nat \<Rightarrow> nat HashTable \<Rightarrow> nat HashTable" where
  "barcodeHash_from [] n h = h"
| "barcodeHash_from (bcd # rest) n h = barcodeHash_from rest (n + 1) (HashTableAdd h (seq bcd) n)"

definition make_barcodeHash :: "bc_details_t list \<Rightarrow> nat HashTable" where
  "make_barcodeHash barcodeArray = barcodeHash_from barcodeArray 0 (\<lambda>key. None)"

subsection \<open>findBestMatch\<close>

text \<open>
  The scan of \<^verbatim>\<open>findBestMatch\<close> over the entries from index 1: the state is
  \<^verbatim>\<open>best_match\<close> (NULL is \<open>None\<close>), \<^verbatim>\<open>nmBest\<close> and \<^verbatim>\<open>nm2Best\<close>.
\<close>

fun findBestMatch_scan ::
  "buffer \<Rightarrow> bc_details_t list \<Rightarrow> nat \<Rightarrow> nat option \<times> int \<times> int \<Rightarrow>
   fault + (nat option \<times> int \<times> int)" where
  "findBestMatch_scan barcode [] n (best_match, nmBest, nm2Best) =
     Inr (best_match, nmBest, nm2Best)"
| "findBestMatch_scan barcode (bcd # rest) n (best_match, nmBest, nm2Best) =
     (case countMismatches (seq bcd) barcode nm2Best of
        Inl f \<Rightarrow> Inl f
      | Inr nMismatches \<Rightarrow>
          if nMismatches < nmBest then
            findBestMatch_scan barcode rest (n + 1) (Some n, nMismatches, nmBest)
          else if nMismatches < nm2Best then
            findBestMatch_scan barcode rest (n + 1) (best_match, nmBest, nMismatches)
          else findBestMatch_scan barcode rest (n + 1) (best_match, nmBest, nm2Best))"

text \<open>The result is the index of the entry returned; index 0 is the null-metrics entry.\<close>

definition findBestMatch ::
  "buffer \<Rightarrow> bc_details_t list \<Rightarrow> nat HashTable \<Rightarrow> opts_t \<Rightarrow> fault + nat" where
  "findBestMatch barcode barcodeArray barcodeHash opts =
     (let bcLen = int (idx1_len opts) + int (idx2_len opts) + 1 in
      case (if min_mismatch_delta opts \<le> 1 then HashTableSearch barcodeHash (chars barcode)
            else None) of
        Some hi \<Rightarrow> Inr hi
      | None \<Rightarrow>
          (case findBestMatch_scan barcode (drop 1 barcodeArray) 1 (None, bcLen, bcLen) of
             Inl f \<Rightarrow> Inl f
           | Inr (best_match, nmBest, nm2Best) \<Rightarrow>
               Inr (case best_match of
                      None \<Rightarrow> 0
                    | Some bm \<Rightarrow>
                        if nmBest \<le> max_mismatches opts
                           \<and> nm2Best - nmBest \<ge> min_mismatch_delta opts
                        then bm else 0)))"

subsection \<open>check_tag_hopping\<close>

text \<open>
  The scan of \<^verbatim>\<open>check_tag_hopping\<close> over the entries from index 1. \<^verbatim>\<open>best_match1\<close> and
  \<^verbatim>\<open>best_match2\<close> are not initialised in the source (\<open>None\<close>).
\<close>

fun check_tag_hopping_scan ::
  "buffer \<Rightarrow> buffer \<Rightarrow> bc_details_t list \<Rightarrow> nat \<Rightarrow>
   (nat option \<times> int) \<times> (nat option \<times> int) \<Rightarrow>
   fault + ((nat option \<times> int) \<times> (nat option \<times> int))" where
  "check_tag_hopping_scan i1 i2 [] n ((best_match1, nmBest1), (best_match2, nmBest2)) =
     Inr ((best_match1, nmBest1), (best_match2, nmBest2))"
| "check_tag_hopping_scan i1 i2 (bcd # rest) n ((best_match1, nmBest1), (best_match2, nmBest2)) =
     (case countMismatches (idx1 bcd) i1 nmBest1 of
        Inl f \<Rightarrow> Inl f
      | Inr nMismatches1 \<Rightarrow>
          (case countMismatches (idx2 bcd) i2 nmBest2 of
             Inl f \<Rightarrow> Inl f
           | Inr nMismatches2 \<Rightarrow>
               check_tag_hopping_scan i1 i2 rest (n + 1)
                 ((if nMismatches1 < nmBest1 then (Some n, nMismatches1)
                   else (best_match1, nmBest1)),
                  (if nMismatches2 < nmBest2 then (Some n, nMismatches2)
                   else (best_match2, nmBest2)))))"

text \<open>The entry that \<^verbatim>\<open>check_tag_hopping\<close> creates for a key that is not yet in the hash.\<close>

definition new_tag_hop :: "string \<Rightarrow> string \<Rightarrow> string \<Rightarrow> bc_details_t" where
  "new_tag_hop key i1 i2 = new_bcd key i1 i2 ''0'' ''DUMMY_LIB'' ''DUMMY_SAMPLE'' None"

text \<open>
  The result is the pointer returned (the key of the entry in \<^verbatim>\<open>tagHopHash\<close>, or
  \<open>None\<close> for NULL) and the hash. The two halves of the barcode are fresh copies made
  by \<^verbatim>\<open>split_index\<close>. The key is built in a buffer of \<^verbatim>\<open>idx1_len + idx2_len + 2\<close>
  bytes.
\<close>

definition check_tag_hopping ::
  "buffer \<Rightarrow> bc_details_t list \<Rightarrow> bc_details_t HashTable \<Rightarrow> opts_t \<Rightarrow>
   fault + (string option \<times> bc_details_t HashTable)" where
  "check_tag_hopping barcode barcodeArray tagHopHash opts =
     (let nmBest = int (idx1_len opts) + int (idx2_len opts) + 1 in
      case split_index (chars barcode) (dual_tag opts) of
        Inl f \<Rightarrow> Inl f
      | Inr (i1, i2) \<Rightarrow>
          (case check_tag_hopping_scan (strdup i1) (strdup i2) (drop 1 barcodeArray) 1
                  ((None, nmBest), (None, nmBest)) of
             Inl f \<Rightarrow> Inl f
           | Inr ((best_match1, nmBest1), (best_match2, nmBest2)) \<Rightarrow>
               if nmBest1 = 0 \<and> nmBest2 = 0 then
                 (case (best_match1, best_match2) of
                    (Some m1, Some m2) \<Rightarrow>
                      (let key = idx1 (barcodeArray ! m1) @ INDEX_SEPARATOR @ idx2 (barcodeArray ! m2) in
                       if length key + 1 > idx1_len opts + idx2_len opts + 2 then Inl Out_Of_Bounds
                       else
                         (case HashTableSearch tagHopHash key of
                            Some hi \<Rightarrow> Inr (Some key, tagHopHash)
                          | None \<Rightarrow>
                              Inr (Some key,
                                   HashTableAdd tagHopHash key
                                     (new_tag_hop key (idx1 (barcodeArray ! m1))
                                        (idx2 (barcodeArray ! m2))))))
                  | (m1, m2) \<Rightarrow> Inl Unassigned_Pointer)
               else Inr (None, tagHopHash)))"

subsection \<open>updateMetrics and findBarcodeName\<close>

text \<open>
  \<^verbatim>\<open>seq\<close> may be NULL (\<open>None\<close>). The mismatches are counted first, then the
  counters are stepped for the count \<^verbatim>\<open>n\<close>.
\<close>

definition count_read :: "bc_details_t \<Rightarrow> int \<Rightarrow> bool \<Rightarrow> bc_details_t" where
  "count_read bcd n isPf =
     (let bcd = bcd\<lparr>reads := reads bcd + 1\<rparr>;
          bcd = (if isPf then bcd\<lparr>pf_reads := pf_reads bcd + 1\<rparr> else bcd);
          bcd = (if n = 0 then
                   (let bcd = bcd\<lparr>perfect := perfect bcd + 1\<rparr> in
                    if isPf then bcd\<lparr>pf_perfect := pf_perfect bcd + 1\<rparr> else bcd)
                 else bcd);
          bcd = (if n = 1 then
                   (let bcd = bcd\<lparr>one_mismatch := one_mismatch bcd + 1\<rparr> in
                    if isPf then bcd\<lparr>pf_one_mismatch := pf_one_mismatch bcd + 1\<rparr> else bcd)
                 else bcd)
      in bcd)"

definition updateMetrics :: "bc_details_t \<Rightarrow> buffer option \<Rightarrow> bool \<Rightarrow> fault + bc_details_t" where
  "updateMetrics bcd sq isPf =
     (case (case sq of None \<Rightarrow> Inr 99 | Some s \<Rightarrow> countMismatches (seq bcd) s 999) of
        Inl f \<Rightarrow> Inl f
      | Inr n \<Rightarrow> Inr (count_read bcd n isPf))"

text \<open>
  The statement \<^verbatim>\<open>if (isUpdateMetrics) updateMetrics(bcd, barcode, isPf)\<close> for the entry
  of the barcode array that \<^verbatim>\<open>bcd\<close> points to.
\<close>

definition update_entry ::
  "bool \<Rightarrow> bc_details_t list \<Rightarrow> nat \<Rightarrow> buffer \<Rightarrow> bool \<Rightarrow> fault + bc_details_t list" where
  "update_entry isUpdateMetrics barcodeArray bcd barcode isPf =
     (if isUpdateMetrics then
        (case updateMetrics (barcodeArray ! bcd) (Some barcode) isPf of
           Inl f \<Rightarrow> Inl f
         | Inr e \<Rightarrow> Inr (barcodeArray[bcd := e]))
      else Inr barcodeArray)"

text \<open>
  \<^verbatim>\<open>findBarcodeName\<close> returns the name of the entry and updates the counters in the
  barcode array and in the tag-hop hash. An entry pointer outside the array has no
  defined target.
\<close>

definition findBarcodeName ::
  "buffer \<Rightarrow> bc_details_t list \<Rightarrow> nat HashTable \<Rightarrow> bc_details_t HashTable \<Rightarrow> opts_t \<Rightarrow>
   bool \<Rightarrow> bool \<Rightarrow> fault + (string \<times> bc_details_t list \<times> bc_details_t HashTable)" where
  "findBarcodeName barcode barcodeArray barcodeHash tagHopHash opts isPf isUpdateMetrics =
     (if barcodeArray = [] then Inl Out_Of_Bounds
      else if noCalls (chars barcode) > max_no_calls opts then
        (case update_entry isUpdateMetrics barcodeArray 0 barcode isPf of
           Inl f \<Rightarrow> Inl f
         | Inr barcodeArray' \<Rightarrow> Inr (name (barcodeArray' ! 0), barcodeArray', tagHopHash))
      else
        (case findBestMatch barcode barcodeArray barcodeHash opts of
           Inl f \<Rightarrow> Inl f
         | Inr bcd \<Rightarrow>
             if length barcodeArray \<le> bcd then Inl Out_Of_Bounds
             else
               (case update_entry isUpdateMetrics barcodeArray bcd barcode isPf of
                  Inl f \<Rightarrow> Inl f
                | Inr barcodeArray' \<Rightarrow>
                    if bcd = 0 \<and> idx2_len opts \<noteq> 0 then
                      (case check_tag_hopping barcode barcodeArray' tagHopHash opts of
                         Inl f \<Rightarrow> Inl f
                       | Inr (tag_hop, tagHopHash') \<Rightarrow>
                           (case tag_hop of
                              None \<Rightarrow> Inr (name (barcodeArray' ! bcd), barcodeArray', tagHopHash')
                            | Some key \<Rightarrow>
                                if isUpdateMetrics then
                                  (case tagHopHash' key of
                                     None \<Rightarrow> Inl Null_Pointer
                                   | Some th \<Rightarrow>
                                       (case updateMetrics th (Some barcode) isPf of
                                          Inl f \<Rightarrow> Inl f
                                        | Inr th' \<Rightarrow>
                                            Inr (name (barcodeArray' ! bcd), barcodeArray',
                                                 tagHopHash'(key \<mapsto> th'))))
                                else Inr (name (barcodeArray' ! bcd), barcodeArray', tagHopHash')))
                    else Inr (name (barcodeArray' ! bcd), barcodeArray', tagHopHash))))"

subsection \<open>Records and the output stream\<close>

text \<open>
  Modelled from the spec: the alignment record, its auxiliary fields and the output
  stream belong to htslib and \<^verbatim>\<open>bamit.h\<close>, which are not among the sources. A
  record has a read name, its flag word and its string-valued auxiliary fields in order;
  a tag is read by its two characters; updating a string tag replaces its value in place
  and appends the tag when the record does not have it; a write appends the record to
  the output or fails. \<open>room\<close> is the number of writes that succeed before the first
  failure.
\<close>

record bam1_t =
  qname :: string
  flag :: "16 word"
  aux :: "(string \<times> string) list"

record BAMit_t =
  written :: "bam1_t list"
  room :: nat

definition BAM_FQCFAIL :: "16 word" where
  "BAM_FQCFAIL = 512"

definition bam_aux_get :: "bam1_t \<Rightarrow> string \<Rightarrow> string option" where
  "bam_aux_get rec tag = map_of (aux rec) tag"

fun update_or_append :: "(string \<times> string) list \<Rightarrow> string \<Rightarrow> string \<Rightarrow> (string \<times> string) list" where
  "update_or_append [] tag v = [(tag, v)]"
| "update_or_append ((t, w) # rest) tag v =
     (if t = tag then (t, v) # rest else (t, w) # update_or_append rest tag v)"

definition bam_aux_update_str :: "bam1_t \<Rightarrow> string \<Rightarrow> string \<Rightarrow> bam1_t" where
  "bam_aux_update_str rec tag v = rec\<lparr>aux := update_or_append (aux rec) tag v\<rparr>"

definition sam_write1 :: "BAMit_t \<Rightarrow> bam1_t \<Rightarrow> int \<times> BAMit_t" where
  "sam_write1 bam_out rec =
     (if room bam_out = 0 then (- 1, bam_out)
      else (0, bam_out\<lparr>written := written bam_out @ [rec], room := room bam_out - 1\<rparr>))"

subsection \<open>makeNewTag and add_suffix\<close>

definition makeNewTag :: "bam1_t \<Rightarrow> string \<Rightarrow> string \<Rightarrow> string" where
  "makeNewTag rec tag nm =
     (let rg = (case bam_aux_get rec tag of None \<Rightarrow> [] | Some p \<Rightarrow> p)
      in rg @ ''#'' @ nm)"

definition add_suffix :: "bam1_t \<Rightarrow> string \<Rightarrow> bam1_t" where
  "add_suffix rec suffix = rec\<lparr>qname := qname rec @ ''#'' @ suffix\<rparr>"

subsection \<open>processTemplate\<close>

text \<open>
  The first loop of \<^verbatim>\<open>processTemplate\<close>: look for the barcode tag; \<open>None\<close> is the
  return of -1 for two different barcode tags.
\<close>

fun find_barcode_tag ::
  "opts_t \<Rightarrow> bam1_t list \<Rightarrow> string option \<Rightarrow> string option \<Rightarrow> (string option \<times> string option) option" where
  "find_barcode_tag opts [] bc_tag qt_tag = Some (bc_tag, qt_tag)"
| "find_barcode_tag opts (rec # rest) bc_tag qt_tag =
     (case bam_aux_get rec (barcode_tag_name opts) of
        None \<Rightarrow> find_barcode_tag opts rest bc_tag qt_tag
      | Some p \<Rightarrow>
          (case bc_tag of
             Some bc \<Rightarrow> if bc \<noteq> p then None else find_barcode_tag opts rest bc_tag qt_tag
           | None \<Rightarrow> find_barcode_tag opts rest (Some p) (bam_aux_get rec (quality_tag_name opts))))"

text \<open>
  The block that computes \<^verbatim>\<open>newtag\<close> from \<^verbatim>\<open>bc_tag\<close> and \<^verbatim>\<open>qt_tag\<close>: the
  (potentially) converted tag, a fresh copy either way, then the truncation to the
  barcode lengths, which splits \<^verbatim>\<open>bc_tag\<close> and copies the truncated halves over
  \<^verbatim>\<open>newtag\<close> in place.
\<close>

definition template_newtag :: "opts_t \<Rightarrow> string \<Rightarrow> string option \<Rightarrow> fault + buffer option" where
  "template_newtag opts bc_tag qt_tag =
     (let newtag = (if convert_low_quality opts
                    then map_option strdup (checkBarcodeQuality bc_tag qt_tag opts)
                    else Some (strdup bc_tag))
      in case split_index bc_tag (dual_tag opts) of
           Inl f \<Rightarrow> Inl f
         | Inr (i1, i2) \<Rightarrow>
             if length i1 > idx1_len opts \<or> length i2 > idx2_len opts then
               (case newtag of
                  None \<Rightarrow> Inl Null_Pointer
                | Some nt \<Rightarrow>
                    (case overwrite nt
                            ((if length i1 > idx1_len opts then take (idx1_len opts) i1 else i1)
                             @ (if idx2_len opts \<noteq> 0 then INDEX_SEPARATOR else [])
                             @ (if length i2 > idx2_len opts then take (idx2_len opts) i2 else i2)) of
                       Inl f \<Rightarrow> Inl f
                     | Inr nt' \<Rightarrow> Inr (Some nt')))
             else Inr newtag)"

text \<open>
  The second loop: every record gets the new RG value (and the read-name suffix) when
  there is a name, and is written; a failed write ends the loop with -1.
\<close>

fun write_records :: "opts_t \<Rightarrow> string option \<Rightarrow> bam1_t list \<Rightarrow> BAMit_t \<Rightarrow> int \<times> BAMit_t" where
  "write_records opts nm [] bam_out = (0, bam_out)"
| "write_records opts nm (rec # rest) bam_out =
     (let rec' = (case nm of
                    None \<Rightarrow> rec
                  | Some n \<Rightarrow>
                      (let r = bam_aux_update_str rec ''RG'' (makeNewTag rec ''RG'' n)
                       in if change_read_name opts then add_suffix r n else r))
      in case sam_write1 bam_out rec' of
           (r, bam_out') \<Rightarrow>
             if r < 0 then (- 1, bam_out') else write_records opts nm rest bam_out')"

text \<open>The state that the driver threads through the templates.\<close>

record decode_state =
  barcodeArray :: "bc_details_t list"
  tagHopHash :: "bc_details_t HashTable"
  bam_out :: BAMit_t

text \<open>
  \<^verbatim>\<open>processTemplate\<close> returns its error code. \<^verbatim>\<open>findBarcodeName\<close> is called for the
  first record of the template, with that record's pass-filter flag, when \<^verbatim>\<open>newtag\<close>
  is not NULL.
\<close>

definition processTemplate ::
  "bam1_t list \<Rightarrow> nat HashTable \<Rightarrow> opts_t \<Rightarrow> decode_state \<Rightarrow> fault + (int \<times> decode_state)" where
  "processTemplate template barcodeHash opts st =
     (case find_barcode_tag opts template None None of
        None \<Rightarrow> Inr (- 1, st)
      | Some (bc_tag, qt_tag) \<Rightarrow>
          (case (case bc_tag of None \<Rightarrow> Inr None | Some bc \<Rightarrow> template_newtag opts bc qt_tag) of
             Inl f \<Rightarrow> Inl f
           | Inr None \<Rightarrow>
               (case write_records opts None template (bam_out st) of
                  (error_code, out') \<Rightarrow> Inr (error_code, st\<lparr>bam_out := out'\<rparr>))
           | Inr (Some newtag) \<Rightarrow>
               (case template of
                  [] \<Rightarrow> Inr (0, st)
                | rec # rest \<Rightarrow>
                    (case findBarcodeName newtag (barcodeArray st) barcodeHash (tagHopHash st) opts
                            (flag rec AND BAM_FQCFAIL = 0) True of
                       Inl f \<Rightarrow> Inl f
                     | Inr (nm, arr', hops') \<Rightarrow>
                         (case write_records opts (Some nm) template (bam_out st) of
                            (error_code, out') \<Rightarrow>
                              Inr (error_code,
                                   \<lparr>barcodeArray = arr', tagHopHash = hops', bam_out = out'\<rparr>))))))"

subsection \<open>The template loop of decode\<close>

text \<open>
  \<^verbatim>\<open>loadTemplate\<close> takes the records from the input while the read name is that of the
  first. The loop of \<^verbatim>\<open>decode\<close> ends at the end of the input or at the first template
  whose \<^verbatim>\<open>processTemplate\<close> is not 0; the result is the input that is left and the state.
\<close>

function decode_loop ::
  "bam1_t list \<Rightarrow> nat HashTable \<Rightarrow> opts_t \<Rightarrow> decode_state \<Rightarrow> fault + (bam1_t list \<times> decode_state)" where
  "decode_loop [] barcodeHash opts st = Inr ([], st)"
| "decode_loop (rec # bam_in) barcodeHash opts st =
     (case processTemplate (rec # takeWhile (\<lambda>r. qname r = qname rec) bam_in) barcodeHash opts st of
        Inl f \<Rightarrow> Inl f
      | Inr (r, st') \<Rightarrow>
          if r \<noteq> 0 then Inr (dropWhile (\<lambda>r. qname r = qname rec) bam_in, st')
          else decode_loop (dropWhile (\<lambda>r. qname r = qname rec) bam_in) barcodeHash opts st')"
  by pat_completeness auto
termination
  by (relation "measure (\<lambda>(bam_in, barcodeHash, opts, st). length bam_in)")
    (auto simp add: length_dropWhile_le less_Suc_eq_le)

text \<open>
  The part of \<^verbatim>\<open>decode\<close> from the template loop to the return code, for a barcode
  array that is loaded and streams that are open: the hash is made from the array, the
  hop hash is empty, and the return code is 0 only when the loop has used up the input
  and the metrics step succeeds. \<open>metrics\<close> is the result of \<^verbatim>\<open>writeMetrics\<close>, 0 when
  no metrics file is asked for.
\<close>

definition decode ::
  "opts_t \<Rightarrow> bc_details_t list \<Rightarrow> bam1_t list \<Rightarrow> BAMit_t \<Rightarrow> int \<Rightarrow> fault + (int \<times> decode_state)" where
  "decode opts arr bam_in out metrics =
     (case decode_loop bam_in (make_barcodeHash arr) opts
             \<lparr>barcodeArray = arr, tagHopHash = (\<lambda>key. None), bam_out = out\<rparr> of
        Inl f \<Rightarrow> Inl f
      | Inr (left, st) \<Rightarrow>
          if left \<noteq> [] then Inr (1, st)
          else if metrics \<noteq> 0 then Inr (1, st)
          else Inr (0, st))"

subsection \<open>Reference notions for the claims\<close>

text \<open>
  The Hamming distance that the matcher means: the number of positions of the tag at
  which the byte of the candidate differs from the character of the tag and is not
  \<^verbatim>\<open>'N'\<close>. For a candidate at least as long as the tag these bytes are its characters;
  behind a shorter candidate they are its terminator and the bytes behind it. A tag is
  readable against a candidate when the allocation of the candidate has a byte for each
  of its positions.
\<close>

definition mismatches :: "string \<Rightarrow> string \<Rightarrow> nat" where
  "mismatches tag bts = length (filter (\<lambda>(t, b). t \<noteq> b \<and> b \<noteq> CHR ''N'') (zip tag bts))"

definition readable :: "string \<Rightarrow> buffer \<Rightarrow> bool" where
  "readable tag barcode = (length tag \<le> length (bytes barcode))"

text \<open>
  The distances over \<open>T[1..]\<close>, and their smallest and second smallest value, counted
  with repetition, among them and two copies of the initial bound
  \<^verbatim>\<open>idx1_len + idx2_len + 1\<close>.
\<close>

definition bcLen_of :: "opts_t \<Rightarrow> int" where
  "bcLen_of opts = int (idx1_len opts) + int (idx2_len opts) + 1"

definition distances :: "buffer \<Rightarrow> bc_details_t list \<Rightarrow> int list" where
  "distances barcode T = map (\<lambda>e. int (mismatches (seq e) (bytes barcode))) (drop 1 T)"

definition sorted_distances :: "int \<Rightarrow> int list \<Rightarrow> int list" where
  "sorted_distances L ds = sort (L # L # ds)"

definition best_distance :: "buffer \<Rightarrow> bc_details_t list \<Rightarrow> opts_t \<Rightarrow> int" where
  "best_distance barcode T opts = sorted_distances (bcLen_of opts) (distances barcode T) ! 0"

definition second_best_distance :: "buffer \<Rightarrow> bc_details_t list \<Rightarrow> opts_t \<Rightarrow> int" where
  "second_best_distance barcode T opts =
     sorted_distances (bcLen_of opts) (distances barcode T) ! 1"

text \<open>The position of the first element with a property.\<close>

definition first_index :: "('a \<Rightarrow> bool) \<Rightarrow> 'a list \<Rightarrow> nat" where
  "first_index P xs = length (takeWhile (\<lambda>x. \<not> P x) xs)"

definition first_best_entry :: "buffer \<Rightarrow> bc_details_t list \<Rightarrow> opts_t \<Rightarrow> nat" where
  "first_best_entry barcode T opts =
     1 + first_index (\<lambda>d. d = best_distance barcode T opts) (distances barcode T)"

text \<open>
  The per-half notions of the tag-hop detector: the distances of one half of the
  candidate to that half of the entries of \<open>T[1..]\<close>, the best of them (and of the
  initial bound), the first entry at the best distance, and the key made of the first
  half of the one and the second half of the other.
\<close>

definition half_distances :: "(bc_details_t \<Rightarrow> string) \<Rightarrow> string \<Rightarrow> bc_details_t list \<Rightarrow> int list" where
  "half_distances half b T =
     map (\<lambda>e. int (mismatches (half e) (bytes (strdup b)))) (drop 1 T)"

definition best_half_distance ::
  "(bc_details_t \<Rightarrow> string) \<Rightarrow> string \<Rightarrow> bc_details_t list \<Rightarrow> opts_t \<Rightarrow> int" where
  "best_half_distance half b T opts = Min (set (bcLen_of opts # half_distances half b T))"

definition first_best_half ::
  "(bc_details_t \<Rightarrow> string) \<Rightarrow> string \<Rightarrow> bc_details_t list \<Rightarrow> opts_t \<Rightarrow> nat" where
  "first_best_half half b T opts =
     1 + first_index (\<lambda>d. d = best_half_distance half b T opts) (half_distances half b T)"

definition hop_key :: "string \<Rightarrow> string \<Rightarrow> bc_details_t list \<Rightarrow> opts_t \<Rightarrow> string" where
  "hop_key b1 b2 T opts =
     idx1 (T ! first_best_half idx1 b1 T opts) @ INDEX_SEPARATOR
       @ idx2 (T ! first_best_half idx2 b2 T opts)"

text \<open>
  The hop entry as the claim describes it, and interning: an entry is stored under its
  key only when the key is not there yet.
\<close>

definition hop_entry :: "string \<Rightarrow> string \<Rightarrow> bc_details_t list \<Rightarrow> opts_t \<Rightarrow> bc_details_t" where
  "hop_entry b1 b2 T opts =
     \<lparr>seq = hop_key b1 b2 T opts,
      idx1 = idx1 (T ! first_best_half idx1 b1 T opts),
      idx2 = idx2 (T ! first_best_half idx2 b2 T opts),
      name = ''0'', lib = ''DUMMY_LIB'', sample = ''DUMMY_SAMPLE'', desc = None,
      reads = 0, pf_reads = 0, perfect = 0, pf_perfect = 0, one_mismatch = 0, pf_one_mismatch = 0\<rparr>"

definition interned :: "bc_details_t HashTable \<Rightarrow> string \<Rightarrow> bc_details_t \<Rightarrow> bc_details_t HashTable" where
  "interned M key e = (case M key of None \<Rightarrow> M(key \<mapsto> e) | Some hi \<Rightarrow> M)"

text \<open>The scan of the detector for one half alone.\<close>

fun best_half_scan ::
  "(bc_details_t \<Rightarrow> string) \<Rightarrow> buffer \<Rightarrow> bc_details_t list \<Rightarrow> nat \<Rightarrow> nat option \<times> int
   \<Rightarrow> fault + (nat option \<times> int)" where
  "best_half_scan half b [] n (best_match, nmBest) = Inr (best_match, nmBest)"
| "best_half_scan half b (bcd # rest) n (best_match, nmBest) =
     (case countMismatches (half bcd) b nmBest of
        Inl f \<Rightarrow> Inl f
      | Inr nMismatches \<Rightarrow>
          best_half_scan half b rest (n + 1)
            (if nMismatches < nmBest then (Some n, nMismatches) else (best_match, nmBest)))"

text \<open>
  The notions of the counter claim: the templates of a stream (the runs of records that
  carry the read name of their first record, as \<^verbatim>\<open>loadTemplate\<close> takes them), the
  templates that carry a barcode tag, and the sum of \<^verbatim>\<open>reads\<close> over a table.
\<close>

function templates_of :: "bam1_t list \<Rightarrow> bam1_t list list" where
  "templates_of [] = []"
| "templates_of (rec # bam_in) =
     (rec # takeWhile (\<lambda>r. qname r = qname rec) bam_in)
       # templates_of (dropWhile (\<lambda>r. qname r = qname rec) bam_in)"
  by pat_completeness auto
termination
  by (relation "measure length") (auto simp add: length_dropWhile_le less_Suc_eq_le)

definition has_barcode_tag :: "opts_t \<Rightarrow> bam1_t list \<Rightarrow> bool" where
  "has_barcode_tag opts template =
     (\<exists>rec\<in>set template. bam_aux_get rec (barcode_tag_name opts) \<noteq> None)"

definition templates_with_barcode_tag :: "opts_t \<Rightarrow> bam1_t list \<Rightarrow> nat" where
  "templates_with_barcode_tag opts bam_in =
     length (filter (has_barcode_tag opts) (templates_of bam_in))"

definition total_reads :: "bc_details_t list \<Rightarrow> nat" where
  "total_reads T = sum_list (map (\<lambda>e. unat (reads e)) T)"

text \<open>
  The order among the counters of an entry; the candidate barcode that \<^verbatim>\<open>processTemplate\<close>
  passes to \<^verbatim>\<open>findBarcodeName\<close>, when there is one; the templates of a stream that have
  one; and a record with its RG value (and read name) rewritten for an entry name.
\<close>

definition counters_ordered :: "bc_details_t \<Rightarrow> bool" where
  "counters_ordered e =
     (perfect e \<le> reads e \<and> one_mismatch e \<le> reads e \<and> pf_reads e \<le> reads e
      \<and> pf_perfect e \<le> perfect e \<and> pf_one_mismatch e \<le> one_mismatch e)"

definition template_candidate :: "opts_t \<Rightarrow> bam1_t list \<Rightarrow> buffer option" where
  "template_candidate opts template =
     (case find_barcode_tag opts template None None of
        Some (Some bc, qt) \<Rightarrow>
          (case template_newtag opts bc qt of Inr (Some newtag) \<Rightarrow> Some newtag | _ \<Rightarrow> None)
      | _ \<Rightarrow> None)"

definition decoded_templates :: "opts_t \<Rightarrow> bam1_t list \<Rightarrow> nat" where
  "decoded_templates opts bam_in =
     length (filter (\<lambda>t. template_candidate opts t \<noteq> None) (templates_of bam_in))"

definition new_RG :: "opts_t \<Rightarrow> string \<Rightarrow> bam1_t \<Rightarrow> bam1_t" where
  "new_RG opts nm rec =
     (let r = bam_aux_update_str rec ''RG'' (makeNewTag rec ''RG'' nm)
      in if change_read_name opts then add_suffix r nm else r)"

subsection \<open>Example data\<close>

text \<open>The options as \<^verbatim>\<open>parse_args\<close> sets them by default, for a table of 4-base single indexes.\<close>

definition default_opts :: opts_t where
  "default_opts =
     \<lparr>barcode_tag_name = ''BC'', quality_tag_name = ''QT'',
      max_low_quality_to_convert = DEFAULT_MAX_LOW_QUALITY_TO_CONVERT,
      convert_low_quality = False,
      max_no_calls = DEFAULT_MAX_NO_CALLS,
      max_mismatches = DEFAULT_MAX_MISMATCHES,
      min_mismatch_delta = DEFAULT_MIN_MISMATCH_DELTA,
      change_read_name = False, idx1_len = 4, idx2_len = 0, dual_tag = 0\<rparr>"

text \<open>
  Entry 0 as \<^verbatim>\<open>loadBarcodeFile\<close> builds it: name \<^verbatim>\<open>"0"\<close>, both indexes filled with
  \<^verbatim>\<open>'N'\<close>, the separator between them when there is a second index.
\<close>

definition null_metrics_entry :: "nat \<Rightarrow> nat \<Rightarrow> bc_details_t" where
  "null_metrics_entry l1 l2 =
     new_bcd (replicate l1 (CHR ''N'') @ (if l2 \<noteq> 0 then INDEX_SEPARATOR else []) @ replicate l2 (CHR ''N''))
       (replicate l1 (CHR ''N'')) (replicate l2 (CHR ''N'')) ''0'' [] [] (Some [])"

definition table_one :: "bc_details_t list" where
  "table_one =
     [null_metrics_entry 4 0,
      new_bcd ''ACGT'' ''ACGT'' [] ''lib1'' ''L1'' ''S1'' (Some ''first'')]"

definition table_two :: "bc_details_t list" where
  "table_two =
     [null_metrics_entry 4 0,
      new_bcd ''AAAA'' ''AAAA'' [] ''lib1'' ''L1'' ''S1'' (Some ''first''),
      new_bcd ''AATA'' ''AATA'' [] ''lib2'' ''L2'' ''S2'' (Some ''second'')]"

text \<open>A table of two dual indexes of 4 + 4 bases, and the options for it.\<close>

definition dual_opts :: opts_t where
  "dual_opts = default_opts\<lparr>idx2_len := 4\<rparr>"

definition table_dual :: "bc_details_t list" where
  "table_dual =
     [null_metrics_entry 4 4,
      new_bcd ''AAAA-GGGG'' ''AAAA'' ''GGGG'' ''s1'' ''L1'' ''S1'' (Some ''first''),
      new_bcd ''CCCC-TTTT'' ''CCCC'' ''TTTT'' ''s2'' ''L2'' ''S2'' (Some ''second'')]"

text \<open>
  Options with the conversion of low qualities switched on, and records for the stream
  driver: a read whose quality tag is shorter than its barcode tag, its mate without
  auxiliary fields, a read with a barcode and qualities of the same length, and an output
  stream with room for ten records.
\<close>

definition masking_opts :: opts_t where
  "masking_opts = default_opts\<lparr>convert_low_quality := True\<rparr>"

definition rec_short_qt :: bam1_t where
  "rec_short_qt = \<lparr>qname = ''read1'', flag = 77, aux = [(''BC'', ''ACGT''), (''QT'', ''!!!'')]\<rparr>"

definition rec_mate :: bam1_t where
  "rec_mate = \<lparr>qname = ''read1'', flag = 141, aux = []\<rparr>"

definition rec_good :: bam1_t where
  "rec_good = \<lparr>qname = ''read0'', flag = 4, aux = [(''BC'', ''ACGT''), (''QT'', ''IIII'')]\<rparr>"

definition empty_out :: BAMit_t where
  "empty_out = \<lparr>written = [], room = 10\<rparr>"


section \<open>Properties\<close>

subsection \<open>Counting mismatches\<close>

lemma mismatches_Nil: "mismatches [] bts = 0"
  by (simp add: mismatches_def)

lemma mismatches_Cons:
  "mismatches (t # tag) (b # bts) =
     (if t \<noteq> b \<and> b \<noteq> CHR ''N'' then 1 else 0) + mismatches tag bts"
  by (simp add: mismatches_def)

text \<open>
  When the allocation of the candidate has a byte for every position of the tag,
  \<^verbatim>\<open>countMismatches\<close> returns the distance, cut off at \<^verbatim>\<open>maxval + 1\<close>.
\<close>

lemma countMismatches_from_eq:
  "length tag \<le> length bts \<Longrightarrow> n \<le> maxval \<Longrightarrow>
   countMismatches_from tag bts maxval n =
     Inr (if n + int (mismatches tag bts) \<le> maxval then n + int (mismatches tag bts)
          else maxval + 1)"
proof (induction tag bts maxval n rule: countMismatches_from.induct)
  case (1 barcode maxval n)
  then show ?case by (simp add: mismatches_Nil)
next
  case (2 t tag maxval n)
  then show ?case by simp
next
  case (3 t tag b barcode maxval n)
  show ?case
  proof (cases "t \<noteq> b \<and> b \<noteq> CHR ''N''")
    case True
    show ?thesis
    proof (cases "n + 1 > maxval")
      case over: True
      with \<open>n \<le> maxval\<close> have "n = maxval" by simp
      with True over show ?thesis by (simp add: mismatches_Cons)
    next
      case False
      then have le: "n + 1 \<le> maxval" by simp
      from "3.prems"(1) have len: "length tag \<le> length barcode" by simp
      from "3.IH"(1) [OF True False len le] True False show ?thesis
        by (simp add: mismatches_Cons add.assoc)
    qed
  next
    case False
    from "3.prems"(1) have len: "length tag \<le> length barcode" by simp
    from "3.IH"(2) [OF False len "3.prems"(2)] False show ?thesis
      by (auto simp add: mismatches_Cons)
  qed
qed

lemma countMismatches_eq:
  "readable tag b \<Longrightarrow> 0 \<le> maxval \<Longrightarrow>
   countMismatches tag b maxval =
     Inr (if int (mismatches tag (bytes b)) \<le> maxval then int (mismatches tag (bytes b))
          else maxval + 1)"
  using countMismatches_from_eq [of tag "bytes b" 0 maxval]
  by (simp add: countMismatches_def readable_def)

lemma findBestMatch_scan_append:
  "findBestMatch_scan B (es @ es') n st =
     (case findBestMatch_scan B es n st of
        Inl f \<Rightarrow> Inl f
      | Inr st' \<Rightarrow> findBestMatch_scan B es' (n + length es) st')"
proof (induction es arbitrary: n st)
  case Nil
  show ?case by (cases st) simp
next
  case (Cons e es)
  obtain bm b1 b2 where st: "st = (bm, b1, b2)" by (cases st)
  show ?case
    unfolding st by (simp add: Cons.IH split: sum.splits)
qed

lemma sorted_distances_sorted: "sorted (sorted_distances L ds)"
  unfolding sorted_distances_def by (rule sorted_sort)

lemma sorted_distances_length: "length (sorted_distances L ds) = length ds + 2"
  unfolding sorted_distances_def by (simp del: sort_key_simps)

lemma sorted_distances_set: "set (sorted_distances L ds) = insert L (set ds)"
  unfolding sorted_distances_def by (simp del: sort_key_simps)

lemma sorted_distances_snoc: "sorted_distances L (ds @ [x]) = insort x (sorted_distances L ds)"
  unfolding sorted_distances_def
  by (rule properties_for_sort) (simp_all add: sorted_insort del: sort_key_simps)

lemma sorted_distances_Nil: "sorted_distances L [] = [L, L]"
  by (simp add: sorted_distances_def)

lemma sorted_two:
  assumes "sorted s" and "2 \<le> length s"
  obtains a b r where "s = a # b # r" and "a \<le> b" and "\<forall>y\<in>set r. b \<le> y"
proof -
  from assms(2) obtain a b r where s: "s = a # b # r"
    by (cases s; cases "tl s") auto
  with assms(1) have "a \<le> b" "\<forall>y\<in>set r. b \<le> y" by auto
  with s show thesis by (rule that)
qed

lemma first_index_append_in:
  "\<exists>x\<in>set xs. P x \<Longrightarrow> first_index P (xs @ ys) = first_index P xs"
  by (auto simp add: first_index_def takeWhile_append1)

lemma first_index_append_notin:
  "\<forall>x\<in>set xs. \<not> P x \<Longrightarrow> first_index P (xs @ ys) = length xs + first_index P ys"
  by (simp add: first_index_def takeWhile_append2)

text \<open>
  The scan of \<^verbatim>\<open>findBestMatch\<close> keeps the two smallest values, counted with repetition,
  among the distances seen and two copies of the initial bound, and the first entry at the
  smallest one.
\<close>

lemma findBestMatch_scan_inv:
  assumes L: "0 \<le> L" and rd: "\<forall>e\<in>set es. readable (seq e) B"
  shows "findBestMatch_scan B es n0 (None, L, L) =
     Inr ((if sorted_distances L (map (\<lambda>e. int (mismatches (seq e) (bytes B))) es) ! 0 < L
           then Some (n0 + first_index
                  (\<lambda>d. d = sorted_distances L (map (\<lambda>e. int (mismatches (seq e) (bytes B))) es) ! 0)
                  (map (\<lambda>e. int (mismatches (seq e) (bytes B))) es))
           else None),
          sorted_distances L (map (\<lambda>e. int (mismatches (seq e) (bytes B))) es) ! 0,
          sorted_distances L (map (\<lambda>e. int (mismatches (seq e) (bytes B))) es) ! 1)"
  using rd
proof (induction es rule: rev_induct)
  case Nil
  show ?case by (simp add: sorted_distances_Nil)
next
  case (snoc e es)
  define ds where "ds = map (\<lambda>e. int (mismatches (seq e) (bytes B))) es"
  define x where "x = int (mismatches (seq e) (bytes B))"
  define s where "s = sorted_distances L ds"
  from snoc.prems have rd_es: "\<forall>e\<in>set es. readable (seq e) B" and rd_e: "readable (seq e) B"
    by simp_all
  have srt: "sorted s" unfolding s_def by (rule sorted_distances_sorted)
  have len: "2 \<le> length s" unfolding s_def by (simp add: sorted_distances_length)
  from srt len obtain a b r where s: "s = a # b # r" and ab: "a \<le> b" and br: "\<forall>y\<in>set r. b \<le> y"
    by (rule sorted_two)
  have sets: "set s = insert L (set ds)" unfolding s_def by (rule sorted_distances_set)
  have ds_nonneg: "\<forall>d\<in>set ds. 0 \<le> d" by (auto simp add: ds_def)
  have "a \<in> set s" "b \<in> set s" by (simp_all add: s)
  with sets ds_nonneg L have a0: "0 \<le> a" and b0: "0 \<le> b" by auto
  have a_min: "\<forall>d\<in>set ds. a \<le> d"
  proof
    fix d assume "d \<in> set ds"
    then have "d \<in> set s" by (simp add: sets)
    then show "a \<le> d" using ab br by (auto simp add: s)
  qed
  have aL: "a \<le> L"
  proof -
    have "L \<in> set s" by (simp add: sets)
    then show ?thesis using ab br by (auto simp add: s)
  qed
  have a_in: "a < L \<Longrightarrow> a \<in> set ds"
    using \<open>a \<in> set s\<close> sets by auto
  have map_eq: "map (\<lambda>e. int (mismatches (seq e) (bytes B))) (es @ [e]) = ds @ [x]"
    by (simp add: ds_def x_def)
  have s': "sorted_distances L (ds @ [x]) = insort x (a # b # r)"
    by (simp only: sorted_distances_snoc s_def [symmetric] s)
  have IH: "findBestMatch_scan B es n0 (None, L, L) =
      Inr ((if a < L then Some (n0 + first_index (\<lambda>d. d = a) ds) else None), a, b)"
    using snoc.IH [OF rd_es] by (simp add: ds_def [symmetric] s_def [symmetric] s)
  have cm: "countMismatches (seq e) B b = Inr (if x \<le> b then x else b + 1)"
    using countMismatches_eq [OF rd_e b0] by (simp add: x_def)
  have len_ds: "length ds = length es" by (simp add: ds_def)
  consider (lt) "x < a" | (mid) "a \<le> x" "x < b" | (ge) "b \<le> x" by linarith
  then show ?case
  proof cases
    case lt
    have ins: "insort x (a # b # r) = x # a # b # r" using lt by simp
    have fi: "first_index (\<lambda>d. d = x) (ds @ [x]) = length es"
      using a_min lt by (subst first_index_append_notin) (auto simp add: first_index_def len_ds)
    have xL: "x < L" using lt aL by simp
    show ?thesis
      unfolding findBestMatch_scan_append IH map_eq s' ins
      using lt ab xL by (simp add: cm fi)
  next
    case mid
    have ins: "insort x (a # b # r) ! 0 = a \<and> insort x (a # b # r) ! 1 = x" using mid by auto
    have fi: "a < L \<Longrightarrow> first_index (\<lambda>d. d = a) (ds @ ys) = first_index (\<lambda>d. d = a) ds" for ys
      using a_in by (intro first_index_append_in) auto
    show ?thesis
      unfolding findBestMatch_scan_append IH map_eq s'
      using mid fi by (simp add: cm ins)
  next
    case ge
    have ins: "insort x (a # b # r) ! 0 = a \<and> insort x (a # b # r) ! 1 = b" using ge ab by auto
    have fi: "a < L \<Longrightarrow> first_index (\<lambda>d. d = a) (ds @ ys) = first_index (\<lambda>d. d = a) ds" for ys
      using a_in by (intro first_index_append_in) auto
    show ?thesis
      unfolding findBestMatch_scan_append IH map_eq s'
      using ge ab fi by (simp add: cm ins)
  qed
qed

subsection \<open>split_index with a dual tag position\<close>

text \<open>
  C3, as stated, fails: with \<^verbatim>\<open>dual_tag = 5\<close> the sequence \<^verbatim>\<open>ACGT-TGCA\<close> splits into
  \<^verbatim>\<open>ACGT\<close> and \<^verbatim>\<open>TGCA\<close>; \<^verbatim>\<open>idx1\<close> is not the first five characters and the
  character at position five is in neither half.
\<close>

theorem split_index_dual_counterexample:
  "split_index ''ACGT-TGCA'' 5 = Inr (''ACGT'', ''TGCA'')
   \<and> ''ACGT'' \<noteq> take 5 ''ACGT-TGCA''
   \<and> ''ACGT'' @ ''TGCA'' \<noteq> ''ACGT-TGCA''"
  by (simp add: split_index_def)

text \<open>
  C3, amended: when \<^verbatim>\<open>dual_tag > 0\<close> (and not behind the end of \<^verbatim>\<open>seq\<close>),
  \<^verbatim>\<open>idx1\<close> is the first \<^verbatim>\<open>dual_tag - 1\<close> characters of \<^verbatim>\<open>seq\<close>, \<^verbatim>\<open>idx2\<close> is
  \<^verbatim>\<open>seq[dual_tag..]\<close>, and the one character between them, at the 1-based position
  \<^verbatim>\<open>dual_tag\<close>, is dropped as the separator; every other character of \<^verbatim>\<open>seq\<close> is
  in exactly one half.
\<close>

theorem split_index_dual:
  assumes "0 < dt" and "dt \<le> length sq"
  shows "split_index sq dt = Inr (take (dt - 1) sq, drop dt sq)
         \<and> sq = take (dt - 1) sq @ [sq ! (dt - 1)] @ drop dt sq
         \<and> length (take (dt - 1) sq) = dt - 1
         \<and> length (drop dt sq) = length sq - dt"
proof -
  from assms have lt: "dt - 1 < length sq" by simp
  have "sq = take (dt - 1) sq @ drop (dt - 1) sq" by simp
  also have "drop (dt - 1) sq = sq ! (dt - 1) # drop (Suc (dt - 1)) sq"
    using lt by (simp add: Cons_nth_drop_Suc)
  finally have "sq = take (dt - 1) sq @ [sq ! (dt - 1)] @ drop dt sq"
    using assms by simp
  moreover have "split_index sq dt = Inr (take (dt - 1) sq, drop dt sq)"
    using assms by (simp add: split_index_def)
  moreover have "length (take (dt - 1) sq) = dt - 1"
    using lt by simp
  ultimately show ?thesis by simp
qed

theorem split_index_dual_witness:
  "(0::nat) < 5 \<and> (5::nat) \<le> length ''ACGT-TGCA''
   \<and> split_index ''ACGT-TGCA'' 5 = Inr (''ACGT'', ''TGCA'')
   \<and> ''ACGT-TGCA'' = ''ACGT'' @ [CHR ''-''] @ ''TGCA''"
  using split_index_dual [of 5 "''ACGT-TGCA''"] by simp

subsection \<open>The match engine\<close>

lemma null_metrics_entry_4:
  "null_metrics_entry 4 0 = new_bcd ''NNNN'' ''NNNN'' [] ''0'' [] [] (Some [])"
  by (simp add: null_metrics_entry_def numeral_eq_Suc)

lemma null_metrics_entry_4_4:
  "null_metrics_entry 4 4 = new_bcd ''NNNN-NNNN'' ''NNNN'' ''NNNN'' ''0'' [] [] (Some [])"
  by (simp add: null_metrics_entry_def numeral_eq_Suc INDEX_SEPARATOR_def)

lemmas example_defs =
  default_opts_def table_one_def table_two_def null_metrics_entry_4 new_bcd_def
  dual_opts_def table_dual_def null_metrics_entry_4_4
  DEFAULT_MAX_LOW_QUALITY_TO_CONVERT_def DEFAULT_MAX_NO_CALLS_def DEFAULT_MAX_MISMATCHES_def
  DEFAULT_MIN_MISMATCH_DELTA_def INDEX_SEPARATOR_def

lemmas buffer_defs = strdup_def bytes_def overwrite_def readable_def NUL_def

lemmas distance_defs =
  best_distance_def second_best_distance_def first_best_entry_def distances_def
  sorted_distances_def bcLen_of_def mismatches_def first_index_def

text \<open>
  C1, as stated, fails: with \<^verbatim>\<open>max_no_calls = 4\<close> the candidate \<^verbatim>\<open>NNNN\<close> passes the
  no-call gate; against the table with the single barcode \<^verbatim>\<open>ACGT\<close> its best distance is
  0 and the second best is the initial bound 5, so both acceptance conditions hold, but
  the exact lookup finds entry 0 under \<^verbatim>\<open>NNNN\<close> and \<^verbatim>\<open>findBestMatch\<close> returns the
  sentinel.
\<close>

theorem findBestMatch_counterexample:
  "noCalls (chars (strdup ''NNNN'')) \<le> max_no_calls (default_opts\<lparr>max_no_calls := 4\<rparr>)
   \<and> findBestMatch (strdup ''NNNN'') table_one (make_barcodeHash table_one)
        (default_opts\<lparr>max_no_calls := 4\<rparr>) = Inr 0
   \<and> best_distance (strdup ''NNNN'') table_one (default_opts\<lparr>max_no_calls := 4\<rparr>)
        \<le> max_mismatches (default_opts\<lparr>max_no_calls := 4\<rparr>)
   \<and> second_best_distance (strdup ''NNNN'') table_one (default_opts\<lparr>max_no_calls := 4\<rparr>)
        - best_distance (strdup ''NNNN'') table_one (default_opts\<lparr>max_no_calls := 4\<rparr>)
        \<ge> min_mismatch_delta (default_opts\<lparr>max_no_calls := 4\<rparr>)"
  by (simp add: example_defs distance_defs buffer_defs noCalls_def isNoCall_def findBestMatch_def
      make_barcodeHash_def HashTableAdd_def HashTableSearch_def)

text \<open>
  C1, amended: for a candidate whose allocation has a byte for every position of the
  sequences of \<open>T[1..]\<close> (otherwise \<^verbatim>\<open>countMismatches\<close> reads outside it), when the exact
  lookup does not answer (\<^verbatim>\<open>min_mismatch_delta > 1\<close>, or the candidate is not a key of the
  hash), \<^verbatim>\<open>findBestMatch\<close> returns a non-sentinel entry iff the best distance over
  \<open>T[1..]\<close> is below the initial bound \<^verbatim>\<open>idx1_len + idx2_len + 1\<close>, is at most
  \<^verbatim>\<open>max_mismatches\<close>, and the second best distance exceeds it by at least
  \<^verbatim>\<open>min_mismatch_delta\<close>; the entry returned is then the first one at the best distance,
  and otherwise entry 0 is returned. When the exact lookup answers, its entry is returned,
  which is entry 0 for a candidate equal to the sequence of entry 0. The distance to a
  sequence is counted over the bytes of the candidate at the positions of the sequence:
  its characters and, for a candidate shorter than the sequence, its terminator and the
  bytes that lie behind it, which for a barcode truncated in place by \<^verbatim>\<open>processTemplate\<close>
  are the characters that were there before.
\<close>

theorem findBestMatch_delta_discipline:
  assumes "\<forall>e\<in>set (drop 1 T). readable (seq e) B"
  shows "findBestMatch B T H opts =
     Inr (case (if min_mismatch_delta opts \<le> 1 then H (chars B) else None) of
            Some hi \<Rightarrow> hi
          | None \<Rightarrow>
              if best_distance B T opts < bcLen_of opts
                 \<and> best_distance B T opts \<le> max_mismatches opts
                 \<and> second_best_distance B T opts - best_distance B T opts
                     \<ge> min_mismatch_delta opts
              then first_best_entry B T opts else 0)"
proof -
  have L: "0 \<le> bcLen_of opts" by (simp add: bcLen_of_def)
  show ?thesis
    unfolding findBestMatch_def Let_def HashTableSearch_def
    unfolding bcLen_of_def [symmetric] findBestMatch_scan_inv [OF L assms]
    by (auto simp add: best_distance_def second_best_distance_def first_best_entry_def
        distances_def split: option.splits)
qed

theorem findBestMatch_delta_discipline_witness:
  "findBestMatch (strdup ''CAAA'') table_two (make_barcodeHash table_two) default_opts = Inr 1
   \<and> findBestMatch (strdup ''CAAA'') table_two (make_barcodeHash table_two)
        (default_opts\<lparr>min_mismatch_delta := 2\<rparr>) = Inr 0
   \<and> best_distance (strdup ''CAAA'') table_two default_opts = 1
   \<and> second_best_distance (strdup ''CAAA'') table_two default_opts = 2
   \<and> template_newtag dual_opts ''AAAAAC-GG'' None =
       Inr (Some \<lparr>chars = ''AAAA-GG'', slack = [CHR ''G'', NUL]\<rparr>)
   \<and> findBestMatch \<lparr>chars = ''AAAA-GG'', slack = [CHR ''G'', NUL]\<rparr> table_dual
        (make_barcodeHash table_dual) dual_opts = Inr 1"
proof -
  have r2: "\<forall>e\<in>set (drop 1 table_two). readable (seq e) (strdup ''CAAA'')"
    by (simp add: example_defs buffer_defs)
  have rd: "\<forall>e\<in>set (drop 1 table_dual).
      readable (seq e) \<lparr>chars = ''AAAA-GG'', slack = [CHR ''G'', NUL]\<rparr>"
    by (simp add: example_defs buffer_defs)
  have nt: "template_newtag dual_opts ''AAAAAC-GG'' None =
       Inr (Some \<lparr>chars = ''AAAA-GG'', slack = [CHR ''G'', NUL]\<rparr>)"
    by (simp add: template_newtag_def split_index_def strtok_r_def example_defs buffer_defs)
  from findBestMatch_delta_discipline [OF r2, of "make_barcodeHash table_two" default_opts]
    findBestMatch_delta_discipline [OF r2, of "make_barcodeHash table_two"
      "default_opts\<lparr>min_mismatch_delta := 2\<rparr>"]
    findBestMatch_delta_discipline [OF rd, of "make_barcodeHash table_dual" dual_opts]
    nt
  show ?thesis
    by (simp add: example_defs distance_defs buffer_defs make_barcodeHash_def HashTableAdd_def)
qed

subsection \<open>Exact matches\<close>

lemma first_index_le: "i < length xs \<Longrightarrow> P (xs ! i) \<Longrightarrow> first_index P xs \<le> i"
proof (rule ccontr)
  assume i: "i < length xs" and P: "P (xs ! i)" and "\<not> first_index P xs \<le> i"
  then have lt: "i < length (takeWhile (\<lambda>x. \<not> P x) xs)" by (simp add: first_index_def)
  then have "takeWhile (\<lambda>x. \<not> P x) xs ! i \<in> set (takeWhile (\<lambda>x. \<not> P x) xs)" by simp
  then have "\<not> P (takeWhile (\<lambda>x. \<not> P x) xs ! i)" by (rule set_takeWhileD [THEN conjunct2])
  with lt P show False by (simp add: takeWhile_nth)
qed

lemma first_index_less:
  assumes "\<exists>x\<in>set xs. P x"
  shows "first_index P xs < length xs"
proof (rule ccontr)
  assume "\<not> first_index P xs < length xs"
  with length_takeWhile_le [of "\<lambda>x. \<not> P x" xs]
  have "length (takeWhile (\<lambda>x. \<not> P x) xs) = length xs" by (simp add: first_index_def)
  with takeWhile_eq_take [of "\<lambda>x. \<not> P x" xs] have "takeWhile (\<lambda>x. \<not> P x) xs = xs" by simp
  then have "\<forall>x\<in>set xs. \<not> P x" by (simp add: takeWhile_eq_all_conv)
  with assms show False by simp
qed

lemma first_index_nth: "\<exists>x\<in>set xs. P x \<Longrightarrow> P (xs ! first_index P xs)"
  using nth_length_takeWhile [of "\<lambda>x. \<not> P x" xs] first_index_less [of xs P]
  by (simp add: first_index_def)

lemma barcodeHash_from_eq:
  "barcodeHash_from es n h key =
     (case h key of
        Some v \<Rightarrow> Some v
      | None \<Rightarrow> if \<exists>e\<in>set es. seq e = key
                then Some (n + first_index (\<lambda>e. seq e = key) es) else None)"
proof (induction es arbitrary: n h)
  case Nil
  show ?case by (simp split: option.splits)
next
  case (Cons e es)
  show ?case
    by (auto simp add: Cons.IH HashTableAdd_def first_index_def split: option.splits)
qed

lemma make_barcodeHash_eq:
  "make_barcodeHash T key =
     (if \<exists>e\<in>set T. seq e = key then Some (first_index (\<lambda>e. seq e = key) T) else None)"
  by (simp add: make_barcodeHash_def barcodeHash_from_eq)

lemma mismatches_self: "mismatches s (s @ r) = 0"
  by (induction s) (simp_all add: mismatches_Nil mismatches_Cons)

lemma two_hits:
  assumes jk: "j < k" and k: "k < length ds" and Pj: "P (ds ! j)" and Pk: "P (ds ! k)"
  shows "2 \<le> length (filter P ds)"
proof -
  from jk k have "ds ! j \<in> set (take k ds)" by (auto simp add: in_set_conv_nth intro!: exI [of _ j])
  with Pj have "filter P (take k ds) \<noteq> []" by (auto simp add: filter_empty_conv)
  then have a: "1 \<le> length (filter P (take k ds))" by (cases "filter P (take k ds)") simp_all
  from k have "ds ! k \<in> set (drop k ds)" by (auto simp add: in_set_conv_nth intro!: exI [of _ 0])
  with Pk have "filter P (drop k ds) \<noteq> []" by (auto simp add: filter_empty_conv)
  then have b: "1 \<le> length (filter P (drop k ds))" by (cases "filter P (drop k ds)") simp_all
  have "filter P ds = filter P (take k ds) @ filter P (drop k ds)"
    by (simp add: filter_append [symmetric])
  with a b show ?thesis by simp
qed

lemma sorted_distances_second_le:
  assumes "2 \<le> length (filter (\<lambda>y. y \<le> v) ds)"
  shows "sorted_distances L ds ! 1 \<le> v"
proof (rule ccontr)
  assume neg: "\<not> sorted_distances L ds ! 1 \<le> v"
  have srt: "sorted (sorted_distances L ds)" by (rule sorted_distances_sorted)
  have len: "2 \<le> length (sorted_distances L ds)" by (simp add: sorted_distances_length)
  from srt len obtain a b r where s: "sorted_distances L ds = a # b # r"
    and br: "\<forall>y\<in>set r. b \<le> y"
    by (rule sorted_two)
  from neg s have vb: "v < b" by simp
  with br have "filter (\<lambda>y. y \<le> v) r = []" by (auto simp add: filter_empty_conv)
  with vb s have "length (filter (\<lambda>y. y \<le> v) (sorted_distances L ds)) \<le> 1" by simp
  moreover have "length (filter (\<lambda>y. y \<le> v) (sorted_distances L ds))
      = length (filter (\<lambda>y. y \<le> v) (L # L # ds))"
    unfolding sorted_distances_def filter_sort by simp
  moreover have "length (filter (\<lambda>y. y \<le> v) ds) \<le> length (filter (\<lambda>y. y \<le> v) (L # L # ds))"
    by simp
  ultimately show False using assms by simp
qed

lemma sorted_distances_best_zero:
  assumes L: "0 \<le> L" and nonneg: "\<forall>d\<in>set ds. 0 \<le> d" and z: "0 \<in> set ds"
  shows "sorted_distances L ds ! 0 = 0"
proof -
  have srt: "sorted (sorted_distances L ds)" by (rule sorted_distances_sorted)
  have len: "2 \<le> length (sorted_distances L ds)" by (simp add: sorted_distances_length)
  from srt len obtain a b r where s: "sorted_distances L ds = a # b # r"
    and ab: "a \<le> b" and br: "\<forall>y\<in>set r. b \<le> y"
    by (rule sorted_two)
  have sets: "set (sorted_distances L ds) = insert L (set ds)" by (rule sorted_distances_set)
  from z sets have "0 \<in> set (a # b # r)" unfolding s [symmetric] by simp
  with ab br have "a \<le> 0" by auto
  moreover from sets s L nonneg have "0 \<le> a" by auto
  ultimately show ?thesis using s by simp
qed

lemma findBestMatch_scan_result:
  assumes "\<forall>e\<in>set (drop 1 T). readable (seq e) B"
  shows "findBestMatch_scan B (drop 1 T) 1 (None, bcLen_of opts, bcLen_of opts) =
     Inr (if best_distance B T opts < bcLen_of opts then Some (first_best_entry B T opts) else None,
          best_distance B T opts, second_best_distance B T opts)"
proof -
  have L: "0 \<le> bcLen_of opts" by (simp add: bcLen_of_def)
  show ?thesis
    unfolding findBestMatch_scan_inv [OF L assms]
    by (simp add: best_distance_def second_best_distance_def first_best_entry_def distances_def)
qed

text \<open>
  C2, as stated, fails: with \<^verbatim>\<open>min_mismatch_delta = 2\<close> the candidate \<^verbatim>\<open>AAAA\<close>, which
  is the sequence of entry 1, is scanned against a table that also holds \<^verbatim>\<open>AATA\<close> at
  distance 1; the delta test rejects it and \<^verbatim>\<open>findBestMatch\<close> returns entry 0.
\<close>

theorem findBestMatch_exact_counterexample:
  "1 < length table_two \<and> chars (strdup ''AAAA'') = seq (table_two ! 1)
   \<and> findBestMatch (strdup ''AAAA'') table_two (make_barcodeHash table_two)
        (default_opts\<lparr>min_mismatch_delta := 2\<rparr>) = Inr 0"
  by (simp add: example_defs findBestMatch_def countMismatches_def buffer_defs)

text \<open>
  C2, amended: let \<open>E\<close> be an entry of the table and the candidate be equal to
  \<^verbatim>\<open>E.seq\<close>. When \<^verbatim>\<open>min_mismatch_delta \<le> 1\<close>, \<^verbatim>\<open>findBestMatch\<close> returns the entry that
  the hash holds for that sequence, for all values of \<^verbatim>\<open>max_mismatches\<close>: an entry of the
  table with exactly that sequence, and \<open>E\<close> itself when the sequences of the table are
  pairwise distinct. When \<^verbatim>\<open>min_mismatch_delta > 1\<close>, \<open>E\<close> is an entry of \<open>T[1..]\<close> and
  the allocation of the candidate has a byte for every position of the sequences of
  \<open>T[1..]\<close>, the scan decides: the best distance is 0, and \<open>E\<close> is returned when
  \<^verbatim>\<open>max_mismatches\<close> is not negative and the second best distance is at least
  \<^verbatim>\<open>min_mismatch_delta\<close>, and entry 0 otherwise.
\<close>

theorem findBestMatch_exact:
  assumes i: "i < length T" and B: "chars B = seq (T ! i)"
  shows "(min_mismatch_delta opts \<le> 1 \<longrightarrow>
            (\<exists>r. findBestMatch B T (make_barcodeHash T) opts = Inr r \<and> r < length T
                 \<and> seq (T ! r) = seq (T ! i) \<and> (distinct (map seq T) \<longrightarrow> r = i)))
       \<and> (1 < min_mismatch_delta opts \<longrightarrow> 1 \<le> i \<longrightarrow>
            (\<forall>e\<in>set (drop 1 T). readable (seq e) B) \<longrightarrow>
            findBestMatch B T (make_barcodeHash T) opts =
              Inr (if 0 \<le> max_mismatches opts
                      \<and> min_mismatch_delta opts \<le> second_best_distance B T opts
                   then i else 0))"
proof (intro conjI impI)
  assume delta: "min_mismatch_delta opts \<le> 1"
  let ?P = "\<lambda>e. seq e = seq (T ! i)"
  let ?r = "first_index ?P T"
  from i have ex: "\<exists>e\<in>set T. ?P e" by auto
  have r: "findBestMatch B T (make_barcodeHash T) opts = Inr ?r"
    using delta ex by (simp add: findBestMatch_def HashTableSearch_def make_barcodeHash_eq B)
  have le: "?r \<le> i" using i by (intro first_index_le) simp_all
  have eq: "seq (T ! ?r) = seq (T ! i)" using ex by (rule first_index_nth)
  have "?r = i" if d: "distinct (map seq T)"
  proof -
    from le i have "?r < length T" by simp
    with d i eq show ?thesis
      by (metis length_map nth_eq_iff_index_eq nth_map)
  qed
  moreover from le i have "?r < length T" by simp
  ultimately show "\<exists>r. findBestMatch B T (make_barcodeHash T) opts = Inr r \<and> r < length T
                 \<and> seq (T ! r) = seq (T ! i) \<and> (distinct (map seq T) \<longrightarrow> r = i)"
    using r eq by simp
next
  assume delta: "1 < min_mismatch_delta opts" and i1: "1 \<le> i"
    and rd: "\<forall>e\<in>set (drop 1 T). readable (seq e) B"
  define ds where "ds = distances B T"
  define j where "j = i - 1"
  have L: "0 < bcLen_of opts" by (simp add: bcLen_of_def)
  have j: "j < length ds" using i i1 by (simp add: ds_def j_def distances_def)
  have bytes: "bytes B = seq (T ! i) @ NUL # slack B" by (simp add: bytes_def B)
  from i i1 have "drop 1 T ! j = T ! i" by (simp add: j_def)
  with j have "ds ! j = int (mismatches (seq (T ! i)) (bytes B))"
    by (simp add: ds_def distances_def)
  then have dj: "ds ! j = 0" unfolding bytes by (simp add: mismatches_self)
  have nonneg: "\<forall>d\<in>set ds. 0 \<le> d" by (auto simp add: ds_def distances_def)
  from j dj have z: "0 \<in> set ds" by (metis nth_mem)
  have best: "best_distance B T opts = 0"
    unfolding best_distance_def ds_def [symmetric]
    using L nonneg z by (intro sorted_distances_best_zero) simp_all
  have fi: "first_best_entry B T opts = i"
    if acc: "min_mismatch_delta opts \<le> second_best_distance B T opts"
  proof -
    let ?k = "first_index (\<lambda>d. d = 0) ds"
    from j dj have le: "?k \<le> j" by (intro first_index_le) simp_all
    from z have dk: "ds ! ?k = 0" by (intro first_index_nth [of ds "\<lambda>d. d = 0"]) auto
    have "\<not> ?k < j"
    proof
      assume "?k < j"
      from this j have "2 \<le> length (filter (\<lambda>y. y \<le> 0) ds)"
        by (rule two_hits) (simp_all add: dk dj)
      then have "sorted_distances (bcLen_of opts) ds ! 1 \<le> 0" by (rule sorted_distances_second_le)
      with acc delta show False by (simp add: second_best_distance_def ds_def)
    qed
    with le have "?k = j" by simp
    with i1 show ?thesis by (simp add: first_best_entry_def best ds_def [symmetric] j_def)
  qed
  show "findBestMatch B T (make_barcodeHash T) opts =
              Inr (if 0 \<le> max_mismatches opts
                      \<and> min_mismatch_delta opts \<le> second_best_distance B T opts
                   then i else 0)"
    unfolding findBestMatch_def Let_def
    unfolding bcLen_of_def [symmetric] findBestMatch_scan_result [OF rd]
    using delta L by (simp add: best fi)
qed

theorem findBestMatch_exact_witness:
  "findBestMatch (strdup ''AAAA'') table_two (make_barcodeHash table_two) default_opts = Inr 1
   \<and> findBestMatch (strdup ''AAAA'') table_two (make_barcodeHash table_two)
        (default_opts\<lparr>max_mismatches := 0, min_mismatch_delta := 0\<rparr>) = Inr 1
   \<and> second_best_distance (strdup ''CCCC-TTTT'') table_dual
        (dual_opts\<lparr>min_mismatch_delta := 2\<rparr>) = 8
   \<and> findBestMatch (strdup ''CCCC-TTTT'') table_dual (make_barcodeHash table_dual)
        (dual_opts\<lparr>min_mismatch_delta := 2\<rparr>) = Inr 2
   \<and> findBestMatch (strdup ''CCCC-TTTT'') table_dual (make_barcodeHash table_dual)
        (dual_opts\<lparr>min_mismatch_delta := 9\<rparr>) = Inr 0"
proof -
  have sb: "second_best_distance (strdup ''CCCC-TTTT'') table_dual
        (dual_opts\<lparr>min_mismatch_delta := 2\<rparr>) = 8"
    "second_best_distance (strdup ''CCCC-TTTT'') table_dual
        (dual_opts\<lparr>min_mismatch_delta := 9\<rparr>) = 8"
    by (simp_all add: example_defs distance_defs buffer_defs)
  have rd: "\<forall>e\<in>set (drop 1 table_dual). readable (seq e) (strdup ''CCCC-TTTT'')"
    by (simp add: example_defs buffer_defs)
  have a: "findBestMatch (strdup ''AAAA'') table_two (make_barcodeHash table_two) default_opts = Inr 1"
    using findBestMatch_exact [of 1 table_two "strdup ''AAAA''" default_opts]
    by (auto simp add: example_defs buffer_defs)
  have b: "findBestMatch (strdup ''AAAA'') table_two (make_barcodeHash table_two)
        (default_opts\<lparr>max_mismatches := 0, min_mismatch_delta := 0\<rparr>) = Inr 1"
    using findBestMatch_exact [of 1 table_two "strdup ''AAAA''"
        "default_opts\<lparr>max_mismatches := 0, min_mismatch_delta := 0\<rparr>"]
    by (auto simp add: example_defs buffer_defs)
  have c: "findBestMatch (strdup ''CCCC-TTTT'') table_dual (make_barcodeHash table_dual)
        (dual_opts\<lparr>min_mismatch_delta := 2\<rparr>) = Inr 2"
    using findBestMatch_exact [of 2 table_dual "strdup ''CCCC-TTTT''"
        "dual_opts\<lparr>min_mismatch_delta := 2\<rparr>"] rd
    unfolding sb by (simp add: example_defs strdup_def)
  have d: "findBestMatch (strdup ''CCCC-TTTT'') table_dual (make_barcodeHash table_dual)
        (dual_opts\<lparr>min_mismatch_delta := 9\<rparr>) = Inr 0"
    using findBestMatch_exact [of 2 table_dual "strdup ''CCCC-TTTT''"
        "dual_opts\<lparr>min_mismatch_delta := 9\<rparr>"] rd
    unfolding sb by (simp add: example_defs strdup_def)
  from a b sb(1) c d show ?thesis by (intro conjI)
qed

subsection \<open>The no-call gate\<close>



lemma count_read_reads: "reads (count_read bcd n isPf) = reads bcd + 1"
  by (simp add: count_read_def Let_def)


lemma count_read_name: "name (count_read bcd n isPf) = name bcd"
  by (simp add: count_read_def Let_def)

lemma updateMetrics_Inr:
  "updateMetrics bcd sq isPf = Inr e \<Longrightarrow> \<exists>n. e = count_read bcd n isPf"
  by (auto simp add: updateMetrics_def split: sum.splits)




subsection \<open>The tag-hop detector\<close>

lemma check_tag_hopping_scan_halves:
  "best_half_scan idx1 i1 es n s1 = Inr r1 \<Longrightarrow> best_half_scan idx2 i2 es n s2 = Inr r2 \<Longrightarrow>
   check_tag_hopping_scan i1 i2 es n (s1, s2) = Inr (r1, r2)"
proof (induction es arbitrary: n s1 s2)
  case Nil
  then show ?case by (cases s1; cases s2) auto
next
  case (Cons e es)
  obtain bm1 c1 where s1: "s1 = (bm1, c1)" by (cases s1)
  obtain bm2 c2 where s2: "s2 = (bm2, c2)" by (cases s2)
  from Cons.prems(1) obtain x1 where x1: "countMismatches (idx1 e) i1 c1 = Inr x1"
    and h1: "best_half_scan idx1 i1 es (n + 1)
        (if x1 < c1 then (Some n, x1) else (bm1, c1)) = Inr r1"
    unfolding s1 by (auto split: sum.splits)
  from Cons.prems(2) obtain x2 where x2: "countMismatches (idx2 e) i2 c2 = Inr x2"
    and h2: "best_half_scan idx2 i2 es (n + 1)
        (if x2 < c2 then (Some n, x2) else (bm2, c2)) = Inr r2"
    unfolding s2 by (auto split: sum.splits)
  from Cons.IH [OF h1 h2] show ?case unfolding s1 s2 by (simp add: x1 x2)
qed

lemma best_half_scan_inv:
  "0 \<le> c \<Longrightarrow> \<forall>e\<in>set es. readable (half e) b \<Longrightarrow>
   best_half_scan half b es n (bm, c) =
     Inr ((if Min (set (c # map (\<lambda>e. int (mismatches (half e) (bytes b))) es)) < c
       then Some (n + first_index
              (\<lambda>d. d = Min (set (c # map (\<lambda>e. int (mismatches (half e) (bytes b))) es)))
              (map (\<lambda>e. int (mismatches (half e) (bytes b))) es))
       else bm),
      Min (set (c # map (\<lambda>e. int (mismatches (half e) (bytes b))) es)))"
proof (induction es arbitrary: n bm c)
  case Nil
  show ?case by simp
next
  case (Cons e es)
  define x where "x = int (mismatches (half e) (bytes b))"
  define ds where "ds = map (\<lambda>e. int (mismatches (half e) (bytes b))) es"
  from Cons.prems(2) have rd_e: "readable (half e) b" and rd_es: "\<forall>e\<in>set es. readable (half e) b"
    by simp_all
  have x0: "0 \<le> x" by (simp add: x_def)
  have cm: "countMismatches (half e) b c = Inr (if x \<le> c then x else c + 1)"
    using countMismatches_eq [OF rd_e Cons.prems(1)] by (simp add: x_def)
  have map_eq: "map (\<lambda>e. int (mismatches (half e) (bytes b))) (e # es) = x # ds"
    by (simp add: x_def ds_def)
  show ?case
  proof (cases "x < c")
    case True
    define mx where "mx = Min (set (x # ds))"
    have m: "Min (set (c # x # ds)) = mx"
      using True by (simp add: mx_def min_def)
    have le: "mx \<le> x" by (simp add: mx_def)
    have step: "best_half_scan half b (e # es) n (bm, c) =
        best_half_scan half b es (n + 1) (Some n, x)"
      using True by (simp add: cm)
    have IH: "best_half_scan half b es (n + 1) (Some n, x) =
        Inr ((if mx < x then Some (n + 1 + first_index (\<lambda>d. d = mx) ds) else Some n), mx)"
      unfolding mx_def ds_def by (rule Cons.IH [OF x0 rd_es])
    have fi: "first_index (\<lambda>d. d = mx) (x # ds) =
        (if mx < x then 1 + first_index (\<lambda>d. d = mx) ds else 0)"
      using le by (auto simp add: first_index_def)
    have lt: "mx < c" using le True by simp
    show ?thesis
      unfolding step IH map_eq m using lt by (simp add: fi)
  next
    case False
    define mc where "mc = Min (set (c # ds))"
    have le: "mc \<le> c" by (simp add: mc_def)
    have m: "Min (set (c # x # ds)) = mc"
    proof -
      have "set (c # x # ds) = insert x (set (c # ds))" by auto
      then have "Min (set (c # x # ds)) = Min (insert x (set (c # ds)))" by (simp only:)
      also have "\<dots> = min x (Min (set (c # ds)))" by (rule Min_insert) simp_all
      finally have "Min (set (c # x # ds)) = min x mc" unfolding mc_def .
      moreover have "mc \<le> x" using le False by linarith
      ultimately show ?thesis by (simp only: min_absorb2)
    qed
    have step: "best_half_scan half b (e # es) n (bm, c) =
        best_half_scan half b es (n + 1) (bm, c)"
      using False by (simp add: cm)
    have IH: "best_half_scan half b es (n + 1) (bm, c) =
        Inr ((if mc < c then Some (n + 1 + first_index (\<lambda>d. d = mc) ds) else bm), mc)"
      unfolding mc_def ds_def by (rule Cons.IH [OF Cons.prems(1) rd_es])
    have fi: "mc < c \<Longrightarrow>
        first_index (\<lambda>d. d = mc) (x # ds) = 1 + first_index (\<lambda>d. d = mc) ds"
      using False by (auto simp add: first_index_def)
    show ?thesis
      unfolding step IH map_eq m by (simp add: fi)
  qed
qed

lemma bcLen_of_pos: "0 < bcLen_of opts"
  by (simp add: bcLen_of_def)

lemma best_half_zero_in:
  assumes "best_half_distance half b T opts = 0"
  shows "\<exists>d\<in>set (half_distances half b T). d = best_half_distance half b T opts"
proof -
  have "Min (set (bcLen_of opts # half_distances half b T))
          \<in> set (bcLen_of opts # half_distances half b T)"
    by (rule Min_in) simp_all
  with assms bcLen_of_pos [of opts] show ?thesis
    by (auto simp add: best_half_distance_def)
qed

lemma first_best_half_bounds:
  assumes "best_half_distance half b T opts = 0"
  shows "1 \<le> first_best_half half b T opts \<and> first_best_half half b T opts < length T
         \<and> T ! first_best_half half b T opts \<in> set (drop 1 T)"
proof -
  let ?k = "first_index (\<lambda>d. d = best_half_distance half b T opts) (half_distances half b T)"
  from first_index_less [OF best_half_zero_in [OF assms]]
  have k: "?k < length (drop 1 T)" by (simp add: half_distances_def)
  then have "drop 1 T ! ?k \<in> set (drop 1 T)" by (rule nth_mem)
  moreover from k have "drop 1 T ! ?k = T ! (1 + ?k)" by (subst nth_drop) simp_all
  ultimately show ?thesis using k by (simp add: first_best_half_def)
qed

lemma check_tag_hopping_eq:
  assumes split: "split_index (chars barcode) (dual_tag opts) = Inr (b1, b2)"
    and shape: "\<forall>e\<in>set (drop 1 T). length (idx1 e) \<le> idx1_len opts \<and> length (idx2 e) \<le> idx2_len opts"
    and rd: "\<forall>e\<in>set (drop 1 T). readable (idx1 e) (strdup b1) \<and> readable (idx2 e) (strdup b2)"
  shows "check_tag_hopping barcode T M opts =
     Inr (if best_half_distance idx1 b1 T opts = 0 \<and> best_half_distance idx2 b2 T opts = 0
          then (Some (hop_key b1 b2 T opts),
                (case M (hop_key b1 b2 T opts) of
                   None \<Rightarrow> M(hop_key b1 b2 T opts \<mapsto>
                     new_tag_hop (hop_key b1 b2 T opts)
                       (idx1 (T ! first_best_half idx1 b1 T opts))
                       (idx2 (T ! first_best_half idx2 b2 T opts)))
                 | Some hi \<Rightarrow> M))
          else (None, M))"
proof -
  have L: "0 \<le> bcLen_of opts" by (simp add: bcLen_of_def)
  from rd have rd1: "\<forall>e\<in>set (drop 1 T). readable (idx1 e) (strdup b1)"
    and rd2: "\<forall>e\<in>set (drop 1 T). readable (idx2 e) (strdup b2)" by simp_all
  have h1: "best_half_scan idx1 (strdup b1) (drop 1 T) 1 (None, bcLen_of opts) =
      Inr ((if best_half_distance idx1 b1 T opts < bcLen_of opts
         then Some (first_best_half idx1 b1 T opts) else None),
        best_half_distance idx1 b1 T opts)"
    unfolding best_half_scan_inv [OF L rd1]
      best_half_distance_def first_best_half_def half_distances_def ..
  have h2: "best_half_scan idx2 (strdup b2) (drop 1 T) 1 (None, bcLen_of opts) =
      Inr ((if best_half_distance idx2 b2 T opts < bcLen_of opts
         then Some (first_best_half idx2 b2 T opts) else None),
        best_half_distance idx2 b2 T opts)"
    unfolding best_half_scan_inv [OF L rd2]
      best_half_distance_def first_best_half_def half_distances_def ..
  note scan = check_tag_hopping_scan_halves [OF h1 h2]
  show ?thesis
  proof (cases "best_half_distance idx1 b1 T opts = 0 \<and> best_half_distance idx2 b2 T opts = 0")
    case False
    then show ?thesis
      unfolding check_tag_hopping_def Let_def split bcLen_of_def [symmetric] sum.case prod.case scan
      by auto
  next
    case True
    then have z1: "best_half_distance idx1 b1 T opts = 0"
      and z2: "best_half_distance idx2 b2 T opts = 0" by simp_all
    from first_best_half_bounds [OF z1] shape
    have l1: "length (idx1 (T ! first_best_half idx1 b1 T opts)) \<le> idx1_len opts" by blast
    from first_best_half_bounds [OF z2] shape
    have l2: "length (idx2 (T ! first_best_half idx2 b2 T opts)) \<le> idx2_len opts" by blast
    have fits: "\<not> length (hop_key b1 b2 T opts) + 1 > idx1_len opts + idx2_len opts + 2"
      using l1 l2 by (simp add: hop_key_def INDEX_SEPARATOR_def)
    show ?thesis
      unfolding check_tag_hopping_def Let_def split bcLen_of_def [symmetric] sum.case prod.case scan
      using z1 z2 bcLen_of_pos [of opts] fits
      by (simp add: hop_key_def [symmetric] HashTableSearch_def HashTableAdd_def
          split: option.splits)
  qed
qed

lemma drop_1_update_0: "drop 1 (T[0 := u]) = drop 1 T"
  by (cases T) simp_all

lemma best_half_distance_update_0:
  "best_half_distance half b (T[0 := u]) opts = best_half_distance half b T opts"
  by (simp only: best_half_distance_def half_distances_def drop_1_update_0)

lemma first_best_half_update_0:
  "first_best_half half b (T[0 := u]) opts = first_best_half half b T opts"
  by (simp only: first_best_half_def half_distances_def drop_1_update_0
      best_half_distance_update_0)

lemma first_best_half_nth_update_0:
  "T[0 := u] ! first_best_half half b T opts = T ! first_best_half half b T opts"
  by (simp add: first_best_half_def)

lemma hop_key_update_0: "hop_key b1 b2 (T[0 := u]) opts = hop_key b1 b2 T opts"
  by (simp only: hop_key_def first_best_half_update_0 first_best_half_nth_update_0)

lemma hop_entry_update_0: "hop_entry b1 b2 (T[0 := u]) opts = hop_entry b1 b2 T opts"
  by (simp only: hop_entry_def hop_key_update_0 first_best_half_update_0
      first_best_half_nth_update_0)

lemma check_tag_hopping_interned:
  assumes "split_index (chars barcode) (dual_tag opts) = Inr (b1, b2)"
    and "\<forall>e\<in>set (drop 1 T). length (idx1 e) \<le> idx1_len opts \<and> length (idx2 e) \<le> idx2_len opts"
    and "\<forall>e\<in>set (drop 1 T). readable (idx1 e) (strdup b1) \<and> readable (idx2 e) (strdup b2)"
  shows "check_tag_hopping barcode T M opts =
     Inr (if best_half_distance idx1 b1 T opts = 0 \<and> best_half_distance idx2 b2 T opts = 0
          then (Some (hop_key b1 b2 T opts),
                interned M (hop_key b1 b2 T opts) (hop_entry b1 b2 T opts))
          else (None, M))"
  unfolding check_tag_hopping_eq [OF assms]
  by (simp add: interned_def hop_entry_def new_tag_hop_def new_bcd_def split: option.splits)

lemmas hop_defs =
  best_half_distance_def half_distances_def first_best_half_def hop_key_def hop_entry_def
  interned_def bcLen_of_def mismatches_def first_index_def

text \<open>
  C5, as stated, fails: with \<^verbatim>\<open>--dual-tag 5\<close>, which sets \<^verbatim>\<open>max_no_calls\<close> to 0, the
  candidate \<^verbatim>\<open>AAAA-TTTN\<close> has one no-call and does not pass the no-call gate. Its halves
  \<^verbatim>\<open>AAAA\<close> and \<^verbatim>\<open>TTTN\<close> are at distance 0 from the first index of entry 1 and the
  second index of entry 2, and \<^verbatim>\<open>findBestMatch\<close> has the value entry 0 for it, yet
  \<^verbatim>\<open>findBarcodeName\<close> does not call the detector on this path: the template is counted
  on entry 0 and no hop entry is interned.
\<close>

theorem tag_hop_detector_counterexample:
  "idx2_len (dual_opts\<lparr>max_no_calls := 0, dual_tag := 5\<rparr>) \<noteq> 0
   \<and> split_index (chars (strdup ''AAAA-TTTN'')) (dual_tag (dual_opts\<lparr>max_no_calls := 0, dual_tag := 5\<rparr>))
       = Inr (''AAAA'', ''TTTN'')
   \<and> findBestMatch (strdup ''AAAA-TTTN'') table_dual (make_barcodeHash table_dual)
        (dual_opts\<lparr>max_no_calls := 0, dual_tag := 5\<rparr>) = Inr 0
   \<and> best_half_distance idx1 ''AAAA'' table_dual (dual_opts\<lparr>max_no_calls := 0, dual_tag := 5\<rparr>) = 0
   \<and> best_half_distance idx2 ''TTTN'' table_dual (dual_opts\<lparr>max_no_calls := 0, dual_tag := 5\<rparr>) = 0
   \<and> findBarcodeName (strdup ''AAAA-TTTN'') table_dual (make_barcodeHash table_dual) (\<lambda>key. None)
        (dual_opts\<lparr>max_no_calls := 0, dual_tag := 5\<rparr>) True True =
       Inr (''0'', table_dual[0 := (table_dual ! 0)\<lparr>reads := 1, pf_reads := 1\<rparr>], (\<lambda>key. None))"
proof -
  have a: "idx2_len (dual_opts\<lparr>max_no_calls := 0, dual_tag := 5\<rparr>) \<noteq> 0"
    by (simp add: example_defs)
  have b: "split_index (chars (strdup ''AAAA-TTTN''))
      (dual_tag (dual_opts\<lparr>max_no_calls := 0, dual_tag := 5\<rparr>)) = Inr (''AAAA'', ''TTTN'')"
    by (simp add: split_index_def example_defs buffer_defs)
  have c: "findBestMatch (strdup ''AAAA-TTTN'') table_dual (make_barcodeHash table_dual)
        (dual_opts\<lparr>max_no_calls := 0, dual_tag := 5\<rparr>) = Inr 0"
    by (simp add: findBestMatch_def make_barcodeHash_def HashTableAdd_def HashTableSearch_def
        countMismatches_def example_defs buffer_defs)
  have d1: "best_half_distance idx1 ''AAAA'' table_dual (dual_opts\<lparr>max_no_calls := 0, dual_tag := 5\<rparr>) = 0"
    by (simp add: hop_defs example_defs buffer_defs)
  have d2: "best_half_distance idx2 ''TTTN'' table_dual (dual_opts\<lparr>max_no_calls := 0, dual_tag := 5\<rparr>) = 0"
    by (simp add: hop_defs example_defs buffer_defs)
  have f: "findBarcodeName (strdup ''AAAA-TTTN'') table_dual (make_barcodeHash table_dual) (\<lambda>key. None)
        (dual_opts\<lparr>max_no_calls := 0, dual_tag := 5\<rparr>) True True =
       Inr (''0'', table_dual[0 := (table_dual ! 0)\<lparr>reads := 1, pf_reads := 1\<rparr>], (\<lambda>key. None))"
    by (simp add: findBarcodeName_def update_entry_def updateMetrics_def count_read_def
        countMismatches_def noCalls_def isNoCall_def example_defs buffer_defs)
  from a b c d1 d2 f show ?thesis by (intro conjI)
qed

text \<open>
  C5, amended: for a dual-indexed table and a candidate that passed the no-call gate and for
  which \<^verbatim>\<open>findBestMatch\<close> returned entry 0, \<^verbatim>\<open>check_tag_hopping\<close> declares a hop iff the
  best distance of the first half of the candidate to the first indexes of \<open>T[1..]\<close> and
  the best distance of its second half to the second indexes are both 0. On a hop it
  returns the entry stored in the tag-hop hash under the key made of the first index of
  the first entry matching the first half, the separator, and the second index of the
  first entry matching the second half; that entry is created only when the key is not in
  the hash yet, with these two halves, name \<^verbatim>\<open>"0"\<close>, library \<^verbatim>\<open>"DUMMY_LIB"\<close>, sample
  \<^verbatim>\<open>"DUMMY_SAMPLE"\<close>, no description and counters 0. Otherwise it returns NULL and leaves
  the hash as it is. In both cases \<^verbatim>\<open>findBarcodeName\<close> returns the name of entry 0 and
  counts the template on entry 0 (on a hop, on the hop entry as well). The candidate is
  one that \<^verbatim>\<open>split_index\<close> splits, the indexes of the table are not longer than
  \<^verbatim>\<open>idx1_len\<close> and \<^verbatim>\<open>idx2_len\<close>, and the copies of the two halves have a byte for every
  position of the indexes they are compared with.
\<close>

theorem tag_hop_detector:
  assumes split: "split_index (chars barcode) (dual_tag opts) = Inr (b1, b2)"
    and shape: "\<forall>e\<in>set (drop 1 T). length (idx1 e) \<le> idx1_len opts \<and> length (idx2 e) \<le> idx2_len opts"
    and rd: "\<forall>e\<in>set (drop 1 T). readable (idx1 e) (strdup b1) \<and> readable (idx2 e) (strdup b2)"
    and dual: "idx2_len opts \<noteq> 0"
    and gate: "noCalls (chars barcode) \<le> max_no_calls opts"
    and e0: "findBestMatch barcode T H opts = Inr 0"
    and ne: "T \<noteq> []"
  shows "check_tag_hopping barcode T M opts =
           Inr (if best_half_distance idx1 b1 T opts = 0 \<and> best_half_distance idx2 b2 T opts = 0
                then (Some (hop_key b1 b2 T opts),
                      interned M (hop_key b1 b2 T opts) (hop_entry b1 b2 T opts))
                else (None, M))
         \<and> findBarcodeName barcode T H M opts isPf True =
           (case updateMetrics (T ! 0) (Some barcode) isPf of
              Inl f \<Rightarrow> Inl f
            | Inr u \<Rightarrow>
                if best_half_distance idx1 b1 T opts = 0 \<and> best_half_distance idx2 b2 T opts = 0
                then
                  (case updateMetrics
                          (case M (hop_key b1 b2 T opts) of
                             None \<Rightarrow> hop_entry b1 b2 T opts | Some hi \<Rightarrow> hi)
                          (Some barcode) isPf of
                     Inl f \<Rightarrow> Inl f
                   | Inr th \<Rightarrow>
                       Inr (name (T ! 0), T[0 := u],
                            (interned M (hop_key b1 b2 T opts) (hop_entry b1 b2 T opts))
                              (hop_key b1 b2 T opts \<mapsto> th)))
                else Inr (name (T ! 0), T[0 := u], M))"
proof -
  have "findBarcodeName barcode T H M opts isPf True =
           (case updateMetrics (T ! 0) (Some barcode) isPf of
              Inl f \<Rightarrow> Inl f
            | Inr u \<Rightarrow>
                if best_half_distance idx1 b1 T opts = 0 \<and> best_half_distance idx2 b2 T opts = 0
                then
                  (case updateMetrics
                          (case M (hop_key b1 b2 T opts) of
                             None \<Rightarrow> hop_entry b1 b2 T opts | Some hi \<Rightarrow> hi)
                          (Some barcode) isPf of
                     Inl f \<Rightarrow> Inl f
                   | Inr th \<Rightarrow>
                       Inr (name (T ! 0), T[0 := u],
                            (interned M (hop_key b1 b2 T opts) (hop_entry b1 b2 T opts))
                              (hop_key b1 b2 T opts \<mapsto> th)))
                else Inr (name (T ! 0), T[0 := u], M))"
  proof (cases "updateMetrics (T ! 0) (Some barcode) isPf")
    case (Inl f)
    show ?thesis
      unfolding findBarcodeName_def Let_def e0 update_entry_def
      using ne gate dual by (simp add: Inl)
  next
    case (Inr u)
    have shape': "\<forall>e\<in>set (drop 1 (T[0 := u])).
        length (idx1 e) \<le> idx1_len opts \<and> length (idx2 e) \<le> idx2_len opts"
      using shape by (simp only: drop_1_update_0)
    have rd': "\<forall>e\<in>set (drop 1 (T[0 := u])).
        readable (idx1 e) (strdup b1) \<and> readable (idx2 e) (strdup b2)"
      using rd by (simp only: drop_1_update_0)
    have hop': "check_tag_hopping barcode (T[0 := u]) M opts =
       Inr (if best_half_distance idx1 b1 T opts = 0 \<and> best_half_distance idx2 b2 T opts = 0
            then (Some (hop_key b1 b2 T opts),
                  interned M (hop_key b1 b2 T opts) (hop_entry b1 b2 T opts))
            else (None, M))"
      unfolding check_tag_hopping_interned [OF split shape' rd']
      by (simp only: best_half_distance_update_0 hop_key_update_0 hop_entry_update_0)
    from updateMetrics_Inr [OF Inr] have "name u = name (T ! 0)" by (auto simp add: count_read_name)
    with ne have nm: "name (T[0 := u] ! 0) = name (T ! 0)" by simp
    show ?thesis
      unfolding findBarcodeName_def Let_def e0 update_entry_def
      using ne gate dual nm
      by (auto simp add: Inr hop' interned_def split: option.splits sum.splits)
  qed
  with check_tag_hopping_interned [OF split shape rd] show ?thesis by simp
qed

theorem tag_hop_detector_witness:
  "split_index (chars (strdup ''AAAA-TTTT'')) (dual_tag dual_opts) = Inr (''AAAA'', ''TTTT'')
   \<and> findBestMatch (strdup ''AAAA-TTTT'') table_dual (make_barcodeHash table_dual) dual_opts = Inr 0
   \<and> check_tag_hopping (strdup ''AAAA-TTTT'') table_dual (\<lambda>key. None) dual_opts =
       Inr (Some ''AAAA-TTTT'',
            [''AAAA-TTTT'' \<mapsto> new_bcd ''AAAA-TTTT'' ''AAAA'' ''TTTT'' ''0'' ''DUMMY_LIB''
               ''DUMMY_SAMPLE'' None])
   \<and> findBarcodeName (strdup ''AAAA-TTTT'') table_dual (make_barcodeHash table_dual) (\<lambda>key. None)
        dual_opts True True =
       Inr (''0'', table_dual[0 := (table_dual ! 0)\<lparr>reads := 1, pf_reads := 1\<rparr>],
            [''AAAA-TTTT'' \<mapsto> (new_bcd ''AAAA-TTTT'' ''AAAA'' ''TTTT'' ''0'' ''DUMMY_LIB''
               ''DUMMY_SAMPLE'' None)\<lparr>reads := 1, pf_reads := 1, perfect := 1, pf_perfect := 1\<rparr>])"
proof -
  have split: "split_index (chars (strdup ''AAAA-TTTT'')) (dual_tag dual_opts) = Inr (''AAAA'', ''TTTT'')"
    by (simp add: split_index_def strtok_r_def example_defs buffer_defs)
  have shape: "\<forall>e\<in>set (drop 1 table_dual).
      length (idx1 e) \<le> idx1_len dual_opts \<and> length (idx2 e) \<le> idx2_len dual_opts"
    by (simp add: example_defs)
  have rd: "\<forall>e\<in>set (drop 1 table_dual).
      readable (idx1 e) (strdup ''AAAA'') \<and> readable (idx2 e) (strdup ''TTTT'')"
    by (simp add: example_defs buffer_defs)
  have dual: "idx2_len dual_opts \<noteq> 0" by (simp add: example_defs)
  have gate: "noCalls (chars (strdup ''AAAA-TTTT'')) \<le> max_no_calls dual_opts"
    by (simp add: noCalls_def isNoCall_def example_defs buffer_defs)
  have e0: "findBestMatch (strdup ''AAAA-TTTT'') table_dual (make_barcodeHash table_dual) dual_opts = Inr 0"
    by (simp add: findBestMatch_def make_barcodeHash_def HashTableAdd_def HashTableSearch_def
        countMismatches_def example_defs buffer_defs)
  have ne: "table_dual \<noteq> []" by (simp add: example_defs)
  have d1: "best_half_distance idx1 ''AAAA'' table_dual dual_opts = 0"
    by (simp add: hop_defs example_defs buffer_defs)
  have d2: "best_half_distance idx2 ''TTTT'' table_dual dual_opts = 0"
    by (simp add: hop_defs example_defs buffer_defs)
  have k: "hop_key ''AAAA'' ''TTTT'' table_dual dual_opts = ''AAAA-TTTT''"
    unfolding hop_key_def first_best_half_def d1 d2
    by (simp add: half_distances_def mismatches_def first_index_def example_defs buffer_defs)
  have e: "hop_entry ''AAAA'' ''TTTT'' table_dual dual_opts =
      new_bcd ''AAAA-TTTT'' ''AAAA'' ''TTTT'' ''0'' ''DUMMY_LIB'' ''DUMMY_SAMPLE'' None"
    unfolding hop_entry_def k first_best_half_def d1 d2
    by (simp add: half_distances_def mismatches_def first_index_def example_defs buffer_defs)
  note main = tag_hop_detector [OF split shape rd dual gate e0 ne, of "\<lambda>key. None" True,
      unfolded d1 d2 k e]
  have c: "check_tag_hopping (strdup ''AAAA-TTTT'') table_dual (\<lambda>key. None) dual_opts =
       Inr (Some ''AAAA-TTTT'',
            [''AAAA-TTTT'' \<mapsto> new_bcd ''AAAA-TTTT'' ''AAAA'' ''TTTT'' ''0'' ''DUMMY_LIB''
               ''DUMMY_SAMPLE'' None])"
    using main by (simp add: interned_def)
  have f: "findBarcodeName (strdup ''AAAA-TTTT'') table_dual (make_barcodeHash table_dual) (\<lambda>key. None)
        dual_opts True True =
       Inr (''0'', table_dual[0 := (table_dual ! 0)\<lparr>reads := 1, pf_reads := 1\<rparr>],
            [''AAAA-TTTT'' \<mapsto> (new_bcd ''AAAA-TTTT'' ''AAAA'' ''TTTT'' ''0'' ''DUMMY_LIB''
               ''DUMMY_SAMPLE'' None)\<lparr>reads := 1, pf_reads := 1, perfect := 1, pf_perfect := 1\<rparr>])"
    using main [THEN conjunct2]
    by (simp add: interned_def updateMetrics_def count_read_def countMismatches_def buffer_defs
        table_dual_def null_metrics_entry_4_4 new_bcd_def)
  from split e0 c f show ?thesis by (intro conjI)
qed

subsection \<open>The quality masker\<close>

lemma convert_low_quality_bases_length:
  "length qt = length bc \<Longrightarrow> length (convert_low_quality_bases bc qt mlq) = length bc"
  by (induction bc qt mlq rule: convert_low_quality_bases.induct) auto

lemma convert_low_quality_bases_nth:
  "length qt = length bc \<Longrightarrow> i < length bc \<Longrightarrow>
   convert_low_quality_bases bc qt mlq ! i =
     (if isalpha (bc ! i) \<and> char_int (qt ! i) - 33 \<le> mlq then CHR ''N'' else bc ! i)"
proof (induction bc qt mlq arbitrary: i rule: convert_low_quality_bases.induct)
  case (3 b newBarcode q qt mlq)
  then show ?case by (cases i) auto
qed auto

text \<open>
  C7: for a barcode and a quality string of the same length, the masker returns a string
  of that length in which position \<open>i\<close> is \<^verbatim>\<open>'N'\<close> exactly where \<^verbatim>\<open>B[i]\<close> is an ASCII
  letter and \<^verbatim>\<open>Q[i] - 33\<close> is at most the threshold, and \<^verbatim>\<open>B[i]\<close> elsewhere; the
  threshold is \<^verbatim>\<open>max_low_quality_to_convert\<close>, and 15 when that option is zero.
\<close>

theorem checkBarcodeQuality_masks:
  assumes "length qt = length bc"
  shows "\<exists>r. checkBarcodeQuality bc (Some qt) opts = Some r \<and> length r = length bc \<and>
           (\<forall>i. i < length bc \<longrightarrow>
              r ! i = (if isalpha (bc ! i) \<and>
                          char_int (qt ! i) - 33 \<le>
                            (if max_low_quality_to_convert opts = 0 then 15
                             else max_low_quality_to_convert opts)
                       then CHR ''N'' else bc ! i))"
  using assms
  by (simp add: checkBarcodeQuality_def DEFAULT_MAX_LOW_QUALITY_TO_CONVERT_def
      convert_low_quality_bases_length convert_low_quality_bases_nth)

theorem checkBarcodeQuality_masks_witness:
  "length ''!5I#'' = length ''ACGT''
   \<and> checkBarcodeQuality ''ACGT'' (Some ''!5I#'') default_opts = Some ''NCGN''
   \<and> checkBarcodeQuality ''ACGT'' (Some ''!5I#'') (default_opts\<lparr>max_low_quality_to_convert := 0\<rparr>)
       = Some ''NCGN''"
  using checkBarcodeQuality_masks [of "''!5I#''" "''ACGT''" default_opts]
  by (simp add: checkBarcodeQuality_def example_defs isalpha_def char_int_def)

subsection \<open>Templates that are decoded\<close>

text \<open>
  What holds for every template for which a candidate barcode is produced: one entry of
  the table is updated, once, with the pass-filter flag of the first record; the counters
  of every entry stay ordered; every record written carries the old RG value (empty when
  there was none), \<^verbatim>\<open>'#'\<close> and the name of the entry. Over a run that ends with the return
  code 0 the sum of \<^verbatim>\<open>reads\<close> is the number of these templates.
\<close>

lemma unat_succ:
  fixes y :: "'a::len word"
  assumes "y \<noteq> - 1"
  shows "unat (y + 1) = Suc (unat y)"
proof -
  from assms have "1 + y \<noteq> 0" by (simp add: eq_neg_iff_add_eq_0 add.commute)
  then have "unat (1 + y) = Suc (unat y)" by (rule unatSuc)
  then show ?thesis by (simp add: add.commute)
qed

lemma word_le_not_max:
  fixes x y :: "'a::len word"
  assumes "x \<le> y" and "y \<noteq> - 1"
  shows "x \<noteq> - 1"
proof
  assume "x = - 1"
  with assms(1) have "y = - 1" by (simp add: word_order.extremum_unique)
  with assms(2) show False by simp
qed

lemma word_succ_mono:
  fixes x y :: "'a::len word"
  assumes "x \<le> y" and "y \<noteq> - 1"
  shows "x + 1 \<le> y + 1" and "x \<le> y + 1"
proof -
  from assms have x: "x \<noteq> - 1" by (rule word_le_not_max)
  from assms(1) have "unat x \<le> unat y" by (simp add: word_le_nat_alt)
  then show "x + 1 \<le> y + 1" and "x \<le> y + 1"
    by (simp_all add: word_le_nat_alt unat_succ [OF x] unat_succ [OF assms(2)])
qed

lemma count_read_ordered:
  assumes "counters_ordered e" and r: "reads e \<noteq> - 1"
  shows "counters_ordered (count_read e n isPf)"
proof -
  from assms have p: "perfect e \<le> reads e" and o: "one_mismatch e \<le> reads e"
    and pr: "pf_reads e \<le> reads e" and pp: "pf_perfect e \<le> perfect e"
    and po: "pf_one_mismatch e \<le> one_mismatch e"
    by (simp_all add: counters_ordered_def)
  have p1: "perfect e \<noteq> - 1" using p r by (rule word_le_not_max)
  have o1: "one_mismatch e \<noteq> - 1" using o r by (rule word_le_not_max)
  note m = word_succ_mono
  show ?thesis
    using m [OF p r] m [OF o r] m [OF pr r] m [OF pp p1] m [OF po o1]
    by (auto simp add: counters_ordered_def count_read_def Let_def pp po)
qed

lemma updateMetrics_ordered:
  assumes "updateMetrics e sq isPf = Inr e'" and "counters_ordered e" and "reads e \<noteq> - 1"
  shows "counters_ordered e'"
  using updateMetrics_Inr [OF assms(1)] count_read_ordered [OF assms(2,3)] by auto

lemma updateMetrics_unat_reads:
  assumes "updateMetrics e sq isPf = Inr e'" and "reads e \<noteq> - 1"
  shows "unat (reads e') = unat (reads e) + 1"
  using updateMetrics_Inr [OF assms(1)] assms(2) by (auto simp add: count_read_reads unat_succ)

lemma updateMetrics_name:
  "updateMetrics e sq isPf = Inr e' \<Longrightarrow> name e' = name e"
  by (auto dest!: updateMetrics_Inr simp add: count_read_name)

lemma update_entry_Inr:
  assumes "update_entry True arr i B isPf = Inr arr'" and "i < length arr"
  shows "\<exists>e. updateMetrics (arr ! i) (Some B) isPf = Inr e \<and> arr' = arr[i := e]
             \<and> name (arr' ! i) = name (arr ! i)"
proof -
  from assms(1) obtain e where e: "updateMetrics (arr ! i) (Some B) isPf = Inr e"
    and arr': "arr' = arr[i := e]"
    by (auto simp add: update_entry_def split: sum.splits)
  from updateMetrics_name [OF e] assms(2) arr' have "name (arr' ! i) = name (arr ! i)" by simp
  with e arr' show ?thesis by blast
qed

lemma findBarcodeName_updates_one:
  assumes "findBarcodeName B arr H M opts isPf True = Inr (nm, arr', M')"
  shows "\<exists>i<length arr. \<exists>e. updateMetrics (arr ! i) (Some B) isPf = Inr e
           \<and> arr' = arr[i := e] \<and> nm = name (arr ! i)"
proof -
  from assms have ne: "arr \<noteq> []"
    by (auto simp add: findBarcodeName_def split: if_splits)
  then have l0: "0 < length arr" by simp
  show ?thesis
  proof (cases "noCalls (chars B) > max_no_calls opts")
    case True
    with assms ne obtain a where a: "update_entry True arr 0 B isPf = Inr a"
      and r: "arr' = a" "nm = name (a ! 0)"
      by (auto simp add: findBarcodeName_def split: sum.splits)
    from update_entry_Inr [OF a l0] r l0 show ?thesis by auto
  next
    case False
    with assms ne obtain i where fb: "findBestMatch B arr H opts = Inr i"
      by (auto simp add: findBarcodeName_def split: sum.splits)
    with assms ne False have i: "i < length arr"
      by (auto simp add: findBarcodeName_def split: if_splits)
    with assms ne False fb obtain a where a: "update_entry True arr i B isPf = Inr a"
      by (auto simp add: findBarcodeName_def split: sum.splits)
    from assms ne False fb i a have r: "arr' = a \<and> nm = name (a ! i)"
      by (auto simp add: findBarcodeName_def split: if_splits sum.splits option.splits)
    from update_entry_Inr [OF a i] r i show ?thesis by auto
  qed
qed

lemma total_reads_update:
  assumes "i < length arr" and "reads (arr ! i) \<noteq> - 1"
    and "updateMetrics (arr ! i) sq isPf = Inr e"
  shows "total_reads (arr[i := e]) = total_reads arr + 1"
proof -
  have "map (\<lambda>e. unat (reads e)) (arr[i := e]) =
      (map (\<lambda>e. unat (reads e)) arr)[i := unat (reads (arr ! i)) + 1]"
    by (simp add: map_update updateMetrics_unat_reads [OF assms(3,2)])
  moreover have "unat (reads (arr ! i)) \<le> sum_list (map (\<lambda>e. unat (reads e)) arr)"
    using assms(1) by (intro member_le_sum_list) auto
  ultimately show ?thesis
    using assms(1) by (simp add: total_reads_def sum_list_update)
qed

lemma write_records_written:
  "write_records opts nm template out = (0, out') \<Longrightarrow>
   written out' = written out
     @ map (\<lambda>rec. case nm of None \<Rightarrow> rec | Some n \<Rightarrow> new_RG opts n rec) template"
proof (induction template arbitrary: out)
  case Nil
  then show ?case by simp
next
  case (Cons rec rest)
  then show ?case
    by (auto simp add: sam_write1_def new_RG_def Let_def split: if_splits option.splits prod.splits)
qed

lemma map_of_update_or_append: "map_of (update_or_append xs tag v) tag = Some v"
  by (induction xs tag v rule: update_or_append.induct) auto

lemma new_RG_value:
  "bam_aux_get (new_RG opts nm rec) ''RG'' =
     Some ((case bam_aux_get rec ''RG'' of None \<Rightarrow> [] | Some rg \<Rightarrow> rg) @ ''#'' @ nm)"
  by (simp add: new_RG_def Let_def bam_aux_get_def bam_aux_update_str_def add_suffix_def
      makeNewTag_def map_of_update_or_append)

lemma processTemplate_decoded:
  assumes run: "processTemplate template H opts st = Inr (rc, st')"
    and ne: "template \<noteq> []"
  shows "case template_candidate opts template of
           None \<Rightarrow> barcodeArray st' = barcodeArray st
         | Some newtag \<Rightarrow>
             (\<exists>i<length (barcodeArray st). \<exists>e.
                updateMetrics (barcodeArray st ! i) (Some newtag)
                  (flag (hd template) AND BAM_FQCFAIL = 0) = Inr e
                \<and> barcodeArray st' = (barcodeArray st)[i := e]
                \<and> (rc = 0 \<longrightarrow>
                     written (bam_out st') =
                       written (bam_out st) @ map (new_RG opts (name (barcodeArray st ! i))) template))"
proof (cases "template_candidate opts template")
  case None
  with run show ?thesis
    by (auto simp add: processTemplate_def template_candidate_def
        split: option.splits sum.splits prod.splits)
next
  case (Some newtag)
  from ne obtain rec rest where t: "template = rec # rest" by (cases template) auto
  from Some obtain bc qt where tags: "find_barcode_tag opts template None None = Some (Some bc, qt)"
    and nt: "template_newtag opts bc qt = Inr (Some newtag)"
    by (auto simp add: template_candidate_def split: option.splits sum.splits)
  from run tags nt t obtain nm arr' hops' out' where
    fb: "findBarcodeName newtag (barcodeArray st) H (tagHopHash st) opts
           (flag rec AND BAM_FQCFAIL = 0) True = Inr (nm, arr', hops')"
    and wr: "write_records opts (Some nm) template (bam_out st) = (rc, out')"
    and st': "st' = \<lparr>barcodeArray = arr', tagHopHash = hops', bam_out = out'\<rparr>"
    by (auto simp add: processTemplate_def split: sum.splits prod.splits)
  from findBarcodeName_updates_one [OF fb] obtain i e where i: "i < length (barcodeArray st)"
    and e: "updateMetrics (barcodeArray st ! i) (Some newtag) (flag rec AND BAM_FQCFAIL = 0) = Inr e"
    and arr': "arr' = (barcodeArray st)[i := e]"
    and nm: "nm = name (barcodeArray st ! i)" by blast
  have "rc = 0 \<longrightarrow> written out' = written (bam_out st) @ map (new_RG opts nm) template"
    using write_records_written [of opts "Some nm" template "bam_out st" out'] wr by simp
  with i e arr' nm st' t Some show ?thesis by auto
qed

lemma reads_not_max:
  assumes "e \<in> set arr" and "total_reads arr < 2 ^ 64 - 1"
  shows "reads e \<noteq> - 1"
proof
  assume "reads e = - 1"
  then have "unat (reads e) = 2 ^ 64 - 1"
    by (simp add: unsigned_minus_1_eq_mask mask_eq_exp_minus_1)
  moreover have "unat (reads e) \<le> total_reads arr"
    unfolding total_reads_def using assms(1) by (intro member_le_sum_list) auto
  ultimately show False using assms(2) by simp
qed

lemma processTemplate_counters:
  assumes run: "processTemplate template H opts st = Inr (rc, st')"
    and ne: "template \<noteq> []"
    and ord: "\<forall>e\<in>set (barcodeArray st). counters_ordered e"
    and bound: "total_reads (barcodeArray st) < 2 ^ 64 - 1"
  shows "(\<forall>e\<in>set (barcodeArray st'). counters_ordered e)
         \<and> total_reads (barcodeArray st') =
             total_reads (barcodeArray st) + (if template_candidate opts template = None then 0 else 1)"
proof (cases "template_candidate opts template")
  case None
  with processTemplate_decoded [OF run ne] ord show ?thesis by simp
next
  case (Some newtag)
  with processTemplate_decoded [OF run ne] obtain i e where i: "i < length (barcodeArray st)"
    and e: "updateMetrics (barcodeArray st ! i) (Some newtag)
              (flag (hd template) AND BAM_FQCFAIL = 0) = Inr e"
    and arr': "barcodeArray st' = (barcodeArray st)[i := e]"
    by auto
  from i have mem: "barcodeArray st ! i \<in> set (barcodeArray st)" by simp
  from reads_not_max [OF mem bound] have r: "reads (barcodeArray st ! i) \<noteq> - 1" .
  from mem ord have "counters_ordered (barcodeArray st ! i)" by blast
  from updateMetrics_ordered [OF e this r]
  have "\<forall>e\<in>set (barcodeArray st'). counters_ordered e"
    unfolding arr' using ord by (auto dest!: set_update_subset_insert [THEN subsetD])
  moreover have "total_reads (barcodeArray st') = total_reads (barcodeArray st) + 1"
    unfolding arr' by (rule total_reads_update [OF i r e])
  ultimately show ?thesis using Some by simp
qed

lemma decode_loop_counters:
  assumes "decode_loop bam_in H opts st = Inr ([], st')"
    and "\<forall>e\<in>set (barcodeArray st). counters_ordered e"
    and "total_reads (barcodeArray st) + length bam_in < 2 ^ 64 - 1"
  shows "(\<forall>e\<in>set (barcodeArray st'). counters_ordered e)
         \<and> total_reads (barcodeArray st') =
             total_reads (barcodeArray st) + decoded_templates opts bam_in"
  using assms
proof (induction bam_in H opts st rule: decode_loop.induct)
  case (1 barcodeHash opts st)
  then show ?case by (simp add: decoded_templates_def)
next
  case (2 rec bam_in barcodeHash opts st)
  let ?t = "rec # takeWhile (\<lambda>r. qname r = qname rec) bam_in"
  let ?rest = "dropWhile (\<lambda>r. qname r = qname rec) bam_in"
  from "2.prems"(1) obtain r st1 where
    pt: "processTemplate ?t barcodeHash opts st = Inr (r, st1)"
    by (auto split: sum.splits)
  have bound: "total_reads (barcodeArray st) < 2 ^ 64 - 1" using "2.prems"(3) by simp
  from processTemplate_counters [OF pt _ "2.prems"(2) bound]
  have ord1: "\<forall>e\<in>set (barcodeArray st1). counters_ordered e"
    and tot1: "total_reads (barcodeArray st1) =
        total_reads (barcodeArray st) + (if template_candidate opts ?t = None then 0 else 1)"
    by simp_all
  have dec: "decoded_templates opts (rec # bam_in) =
      (if template_candidate opts ?t = None then 0 else 1) + decoded_templates opts ?rest"
    by (simp add: decoded_templates_def)
  show ?case
  proof (cases "r = 0")
    case False
    with "2.prems"(1) pt have rest: "?rest = []" and st': "st' = st1" by simp_all
    have "decoded_templates opts ?rest = 0"
      by (simp only: rest decoded_templates_def templates_of.simps filter.simps list.size)
    with dec have "decoded_templates opts (rec # bam_in) =
        (if template_candidate opts ?t = None then 0 else 1)" by (simp only: add_0_right)
    with ord1 tot1 show ?thesis unfolding st' by (simp only:)
  next
    case True
    with "2.prems"(1) pt have run: "decode_loop ?rest barcodeHash opts st1 = Inr ([], st')" by simp
    have "length ?rest \<le> length bam_in" by (rule length_dropWhile_le)
    with tot1 "2.prems"(3)
    have bound1: "total_reads (barcodeArray st1) + length ?rest < 2 ^ 64 - 1" by (simp split: if_splits)
    from True have nz: "\<not> r \<noteq> 0" by simp
    from "2.IH" [OF pt refl nz run ord1 bound1] tot1 dec
    show ?thesis by simp
  qed
qed

lemma find_barcode_tag_has_tag:
  "find_barcode_tag opts t None q = Some (Some bc, qt) \<Longrightarrow> has_barcode_tag opts t"
proof (induction t arbitrary: q)
  case Nil
  then show ?case by simp
next
  case (Cons rec rest)
  show ?case
  proof (cases "bam_aux_get rec (barcode_tag_name opts)")
    case None
    with Cons.prems have "find_barcode_tag opts rest None q = Some (Some bc, qt)" by simp
    then have "has_barcode_tag opts rest" by (rule Cons.IH)
    then show ?thesis by (auto simp add: has_barcode_tag_def)
  next
    case (Some p)
    then show ?thesis by (auto simp add: has_barcode_tag_def)
  qed
qed

lemma template_candidate_has_tag:
  "template_candidate opts t \<noteq> None \<Longrightarrow> has_barcode_tag opts t"
  by (auto simp add: template_candidate_def split: option.splits
      intro: find_barcode_tag_has_tag)

lemma length_filter_mono:
  "(\<And>x. P x \<Longrightarrow> Q x) \<Longrightarrow> length (filter P xs) \<le> length (filter Q xs)"
  by (induction xs) auto

lemma decoded_templates_le: "decoded_templates opts bam_in \<le> templates_with_barcode_tag opts bam_in"
  unfolding decoded_templates_def templates_with_barcode_tag_def
  by (rule length_filter_mono) (rule template_candidate_has_tag)

lemma decode_counters:
  assumes run: "decode opts arr bam_in out metrics = Inr (0, st')"
    and ord: "\<forall>e\<in>set arr. counters_ordered e"
    and zero: "total_reads arr = 0"
    and len: "length bam_in < 2 ^ 64 - 1"
  shows "(\<forall>e\<in>set (barcodeArray st'). counters_ordered e)
         \<and> total_reads (barcodeArray st') = decoded_templates opts bam_in
         \<and> total_reads (barcodeArray st') \<le> templates_with_barcode_tag opts bam_in"
proof -
  let ?st = "\<lparr>barcodeArray = arr, tagHopHash = (\<lambda>key. None), bam_out = out\<rparr>"
  from run have loop: "decode_loop bam_in (make_barcodeHash arr) opts ?st = Inr ([], st')"
    by (auto simp add: decode_def split: sum.splits if_splits)
  have "(\<forall>e\<in>set (barcodeArray st'). counters_ordered e)
      \<and> total_reads (barcodeArray st') = total_reads (barcodeArray ?st) + decoded_templates opts bam_in"
    using len by (intro decode_loop_counters [OF loop]) (simp_all add: ord zero)
  with zero decoded_templates_le [of opts bam_in] show ?thesis by simp
qed

subsection \<open>The stream driver\<close>

lemmas stream_defs =
  masking_opts_def rec_short_qt_def rec_mate_def rec_good_def empty_out_def

lemmas driver_defs =
  decode_def processTemplate_def template_newtag_def checkBarcodeQuality_def split_index_def
  strtok_r_def bam_aux_get_def bam_aux_update_str_def makeNewTag_def add_suffix_def
  sam_write1_def findBarcodeName_def findBestMatch_def make_barcodeHash_def HashTableAdd_def
  HashTableSearch_def update_entry_def updateMetrics_def count_read_def countMismatches_def
  noCalls_def isNoCall_def BAM_FQCFAIL_def isalpha_def char_int_def

text \<open>
  C6 at a failing input: masking is enabled, the table has 4-base indexes, and a template
  carries the barcode \<^verbatim>\<open>ACGTA\<close> with the qualities \<^verbatim>\<open>!!!!!\<close> (all 0). The masker turns
  the barcode into \<^verbatim>\<open>NNNNN\<close>, but the truncation splits the barcode tag as it was read
  and copies its truncated half over the masked string: the candidate is \<^verbatim>\<open>ACGT\<close>, not
  \<^verbatim>\<open>NNNN\<close> (in the six bytes of the masked string, with the old terminator behind the
  new one).
\<close>

theorem template_newtag_truncation_unmasked:
  "checkBarcodeQuality ''ACGTA'' (Some ''!!!!!'') masking_opts = Some ''NNNNN''
   \<and> template_newtag masking_opts ''ACGTA'' (Some ''!!!!!'') =
       Inr (Some \<lparr>chars = ''ACGT'', slack = [NUL]\<rparr>)"
  by (simp add: stream_defs example_defs driver_defs buffer_defs)

text \<open>
  C8 at a failing input: masking is enabled and the only template has the barcode
  \<^verbatim>\<open>ACGT\<close> with the three qualities \<^verbatim>\<open>!!!\<close>. \<^verbatim>\<open>checkBarcodeQuality\<close> returns NULL,
  \<^verbatim>\<open>processTemplate\<close> takes the NULL for a template without a barcode, writes the
  record as it is and returns 0, and \<^verbatim>\<open>decode\<close> ends with the return code 0.
\<close>

theorem decode_quality_length_mismatch:
  "checkBarcodeQuality ''ACGT'' (Some ''!!!'') masking_opts = None
   \<and> decode masking_opts table_one [rec_short_qt] empty_out 0 =
       Inr (0, \<lparr>barcodeArray = table_one, tagHopHash = (\<lambda>key. None),
                bam_out = \<lparr>written = [rec_short_qt], room = 9\<rparr>\<rparr>)"
  by (simp add: stream_defs example_defs driver_defs buffer_defs)

text \<open>
  C9 at a failing input: masking is enabled and the stream has two templates with a
  barcode tag, the second with a quality tag shorter than its barcode. The run ends with
  the return code 0, the second template is counted on no entry, and the sum of
  \<^verbatim>\<open>reads\<close> over the table is 1.
\<close>

theorem decode_reads_below_templates:
  "decode masking_opts table_one [rec_good, rec_short_qt] empty_out 0 =
       Inr (0, \<lparr>barcodeArray =
                  table_one[1 := (table_one ! 1)\<lparr>reads := 1, pf_reads := 1, perfect := 1, pf_perfect := 1\<rparr>],
                tagHopHash = (\<lambda>key. None),
                bam_out = \<lparr>written = [bam_aux_update_str rec_good ''RG'' ''#lib1'', rec_short_qt],
                            room = 8\<rparr>\<rparr>)
   \<and> total_reads
        (table_one[1 := (table_one ! 1)\<lparr>reads := 1, pf_reads := 1, perfect := 1, pf_perfect := 1\<rparr>]) = 1
   \<and> templates_with_barcode_tag masking_opts [rec_good, rec_short_qt] = 2"
  by (simp add: stream_defs example_defs driver_defs buffer_defs total_reads_def templates_with_barcode_tag_def
      has_barcode_tag_def)

text \<open>
  C10 at a failing input: masking is enabled and the template has a barcode tag, on a
  record whose quality tag is shorter than the barcode, and a mate; neither record has an
  RG field. Both records are written as they are: no RG value is set.
\<close>

theorem decode_rg_not_rewritten:
  "has_barcode_tag masking_opts [rec_short_qt, rec_mate]
   \<and> decode masking_opts table_one [rec_short_qt, rec_mate] empty_out 0 =
       Inr (0, \<lparr>barcodeArray = table_one, tagHopHash = (\<lambda>key. None),
                bam_out = \<lparr>written = [rec_short_qt, rec_mate], room = 8\<rparr>\<rparr>)
   \<and> bam_aux_get rec_short_qt ''RG'' = None \<and> bam_aux_get rec_mate ''RG'' = None"
  by (simp add: stream_defs example_defs driver_defs buffer_defs has_barcode_tag_def)

end
